theory Spec2Isabelle
  imports Complex_Main "HOL-Library.Sublist"
begin

section \<open>JavaScript values of the translation catalog\<close>

text \<open>
  The hook \<^verbatim>\<open>useTranslations\<close> (src/hooks/useTranslations.ts) keeps the catalog as plain
  JavaScript objects and tells a leaf from a namespace by looking at the keys of an
  object, not by a tag.  The embedding therefore keeps the untyped shape: a value is a
  string or an object, and an object is the list of its own properties in the order
  \<^verbatim>\<open>Object.keys\<close> / \<^verbatim>\<open>Object.entries\<close> enumerate them.  A \<^typ>\<open>char\<close> stands for one code
  unit of a JavaScript string; the embedding has the strings whose code units are below
  256.  \<^verbatim>\<open>undefined\<close> is \<^term>\<open>None\<close> of an option.

  The objects of the catalog are made by object literals, \<^verbatim>\<open>JSON.parse\<close>, spread and rest
  patterns, so their prototype is \<^verbatim>\<open>Object.prototype\<close>.  A property access by a name that
  the object does not have itself therefore finds the member that every object inherits
  under that name, if there is one; and every property of a string is a member of the
  host (a character, the length, a method).  The embedding has no values for these
  built-in objects.  A call of the hook either returns, or throws, or reaches a built-in
  member and goes on with it: that last outcome is \<open>BuiltIn\<close>, and the embedding says
  nothing about what such a call does (it may read or change objects of the host).
\<close>

datatype jv = Str string | Obj "(string \<times> jv) list"

type_synonym obj = "(string \<times> jv) list"

text \<open>
  What a call can throw: a TypeError, or the error of the engine when the call stack
  overflows (a RangeError in V8 and JavaScriptCore).
\<close>

datatype error = TypeError | StackOverflow

datatype stop = Throw error | BuiltIn

text \<open>
  The names of the members of \<^verbatim>\<open>Object.prototype\<close> (ECMAScript, with the legacy members
  every browser and Node.js has).  All of them are functions, except \<^verbatim>\<open>__proto__\<close>, an
  accessor: reading it yields the prototype, assigning to it replaces the prototype when
  the value is an object.
\<close>

definition object_members :: "string list" where
  "object_members =
     [''constructor'', ''hasOwnProperty'', ''isPrototypeOf'', ''propertyIsEnumerable'',
      ''toLocaleString'', ''toString'', ''valueOf'', ''__defineGetter__'', ''__defineSetter__'',
      ''__lookupGetter__'', ''__lookupSetter__'', ''__proto__'']"

definition inherited :: "string \<Rightarrow> bool" where
  "inherited k = (k \<in> set object_members)"

subsection \<open>Property order of an object\<close>

text \<open>
  JavaScript enumerates the own properties of an object with the array-index names first
  (canonical decimal numerals below \<open>2^32 - 1\<close>), in ascending numeric order, and after
  them every other name in the order of creation.
\<close>

definition digit :: "char \<Rightarrow> bool" where
  "digit c = (48 \<le> (of_char c :: int) \<and> (of_char c :: int) \<le> 57)"

definition index_val :: "string \<Rightarrow> int" where
  "index_val s = foldl (\<lambda>n c. 10 * n + ((of_char c :: int) - 48)) 0 s"

definition is_index :: "string \<Rightarrow> bool" where
  "is_index s = (s \<noteq> [] \<and> list_all digit s \<and> (s = ''0'' \<or> hd s \<noteq> CHR ''0'')
     \<and> index_val s < 4294967295)"

text \<open>\<open>js_before k k'\<close>: the name \<open>k\<close> may be enumerated before the name \<open>k'\<close>.\<close>

definition js_before :: "string \<Rightarrow> string \<Rightarrow> bool" where
  "js_before k k' = (\<not> is_index k' \<or> (is_index k \<and> index_val k < index_val k'))"

definition valid_keys :: "string list \<Rightarrow> bool" where
  "valid_keys ks = (distinct ks \<and> sorted_wrt js_before ks)"

text \<open>
  A list of properties is the enumeration of some JavaScript object iff its names are
  distinct and in JavaScript's order, at every depth.
\<close>

fun valid_jv :: "jv \<Rightarrow> bool"
  and valid_kids :: "obj \<Rightarrow> bool" where
  "valid_jv (Str s) = True"
| "valid_jv (Obj kvs) = (valid_keys (map fst kvs) \<and> valid_kids kvs)"
| "valid_kids [] = True"
| "valid_kids ((k, v) # rest) = (valid_jv v \<and> valid_kids rest)"

definition valid_obj :: "obj \<Rightarrow> bool" where
  "valid_obj kvs = valid_jv (Obj kvs)"

subsection \<open>Reading, writing and deleting a property\<close>

text \<open>
  \<^verbatim>\<open>x[k]\<close>: a TypeError on \<^verbatim>\<open>undefined\<close>; on an object its own property \<open>k\<close>, else the
  inherited member \<open>k\<close>, else \<^verbatim>\<open>undefined\<close>; on a string a member of the host.
\<close>

fun getProp :: "jv option \<Rightarrow> string \<Rightarrow> stop + jv option" where
  "getProp None k = Inl (Throw TypeError)"
| "getProp (Some (Str s)) k = Inl BuiltIn"
| "getProp (Some (Obj kvs)) k =
     (case map_of kvs k of
        Some v \<Rightarrow> Inr (Some v)
      | None \<Rightarrow> if inherited k then Inl BuiltIn else Inr None)"

fun ins_index :: "string \<Rightarrow> jv \<Rightarrow> obj \<Rightarrow> obj" where
  "ins_index k v [] = [(k, v)]"
| "ins_index k v ((k', v') # rest) =
     (if is_index k' \<and> index_val k' < index_val k then (k', v') # ins_index k v rest
      else (k, v) # (k', v') # rest)"

text \<open>
  Defining the own property \<open>k\<close> of an object, as a computed key in an object literal does
  (\<^verbatim>\<open>{ ...value, [k]: v }\<close>): an existing property keeps its place; a new array-index name
  goes to its numeric place; any other new name goes last.
\<close>

definition setOwn :: "obj \<Rightarrow> string \<Rightarrow> jv \<Rightarrow> obj" where
  "setOwn kvs k v =
     (if k \<in> set (map fst kvs)
      then map (\<lambda>(k', v'). if k' = k then (k', v) else (k', v')) kvs
      else if is_index k then ins_index k v kvs
      else kvs @ [(k, v)])"

text \<open>
  The assignment \<^verbatim>\<open>o[k] = v\<close> to an object of the catalog.  It defines the own property,
  unless the object has no property \<^verbatim>\<open>__proto__\<close> itself and \<open>k\<close> is that name: then it calls
  the setter that every object inherits, which replaces the prototype of \<open>o\<close> when \<open>v\<close> is
  an object, and creates no property: a built-in member is reached.  (The other inherited
  members are writable data properties; assigning under their names defines an own
  property.)
\<close>

definition assign :: "obj \<Rightarrow> string \<Rightarrow> jv \<Rightarrow> stop + obj" where
  "assign kvs k v =
     (if k = ''__proto__'' \<and> k \<notin> set (map fst kvs) then Inl BuiltIn
      else Inr (setOwn kvs k v))"

text \<open>\<^verbatim>\<open>delete o[k]\<close>, and the rest pattern \<^verbatim>\<open>const { [k]: _, ...rest } = o\<close>.\<close>

definition delete :: "obj \<Rightarrow> string \<Rightarrow> obj" where
  "delete kvs k = filter (\<lambda>(k', v'). k' \<noteq> k) kvs"

text \<open>A value in a condition: \<^verbatim>\<open>undefined\<close> and the empty string are falsy.\<close>

fun truthy :: "jv option \<Rightarrow> bool" where
  "truthy None = False"
| "truthy (Some (Str s)) = (s \<noteq> [])"
| "truthy (Some (Obj kvs)) = True"

section \<open>The catalog and the state of the hook\<close>

record TranslationData =
  project :: string
  languages :: "string list"
  translations' :: obj

text \<open>
  \<^verbatim>\<open>originalValue\<close> is declared a string, but \<^verbatim>\<open>updateTranslation\<close> stores whatever it reads
  from the snapshot, which is an object when the entry it reads holds one.
\<close>

record UnsavedChange =
  keyPath :: string
  language :: string
  originalValue :: jv
  newValue :: string

text \<open>
  The React state cells of the hook that the operations read and replace (the
  \<^verbatim>\<open>loading\<close> and \<^verbatim>\<open>error\<close> cells belong to the fetch and are left out).  An operation runs
  on the state of the latest render.
\<close>

record state =
  data :: "TranslationData option"
  originalData :: "TranslationData option"
  unsavedChanges :: "UnsavedChange list"

section \<open>Tree navigation\<close>

text \<open>\<^verbatim>\<open>keyPath.split('.')\<close>: never empty, \<^verbatim>\<open>"".split('.')\<close> is \<^verbatim>\<open>[""]\<close>.\<close>

fun splitDot :: "string \<Rightarrow> string list" where
  "splitDot [] = [[]]"
| "splitDot (c # cs) =
     (if c = CHR ''.'' then [] # splitDot cs
      else (case splitDot cs of [] \<Rightarrow> [[c]] | w # ws \<Rightarrow> (c # w) # ws))"

text \<open>
  The loop \<^verbatim>\<open>for (i = 0; i < keys.length - 1; i++) current = current[keys[i]]\<close>, run on
  the segments it visits.
\<close>

fun navigate :: "jv option \<Rightarrow> string list \<Rightarrow> stop + jv option" where
  "navigate cur [] = Inr cur"
| "navigate cur (k # ks) =
     (case getProp cur k of Inl e \<Rightarrow> Inl e | Inr next \<Rightarrow> navigate next ks)"

text \<open>
  The operations mutate an object they reached by navigation inside a deep copy of the
  catalog.  \<open>modifyAt ks f node\<close> is that copy after the object at the segments \<open>ks\<close>
  has been changed by \<open>f\<close>; nothing else of the copy changes.
\<close>

fun upd_key :: "string \<Rightarrow> (jv \<Rightarrow> jv) \<Rightarrow> obj \<Rightarrow> obj" where
  "upd_key k g [] = []"
| "upd_key k g ((k', v') # rest) =
     (if k' = k then (k', g v') # rest else (k', v') # upd_key k g rest)"

primrec modifyAt :: "string list \<Rightarrow> (obj \<Rightarrow> obj) \<Rightarrow> obj \<Rightarrow> obj" where
  "modifyAt [] f node = f node"
| "modifyAt (k # ks) f node =
     upd_key k (\<lambda>v. case v of Obj c \<Rightarrow> Obj (modifyAt ks f c) | Str s \<Rightarrow> Str s) node"

section \<open>updateTranslation\<close>

text \<open>\<^verbatim>\<open>x || ''\<close> for a string, an object or \<^verbatim>\<open>undefined\<close>.\<close>

fun orEmpty :: "jv option \<Rightarrow> jv" where
  "orEmpty None = Str []"
| "orEmpty (Some v) = v"

text \<open>\<^verbatim>\<open>originalCurrent[lastKey]?.[language] || ''\<close>, given \<^verbatim>\<open>originalCurrent[lastKey]\<close>.\<close>

fun originalValueOf :: "jv option \<Rightarrow> string \<Rightarrow> stop + jv" where
  "originalValueOf None lang = Inr (Str [])"
| "originalValueOf (Some v) lang =
     (case getProp (Some v) lang of Inl e \<Rightarrow> Inl e | Inr x \<Rightarrow> Inr (orEmpty x))"

text \<open>\<^verbatim>\<open>prev.findIndex(p)\<close>, with \<^term>\<open>None\<close> for \<open>-1\<close>.\<close>

fun findIndex :: "('a \<Rightarrow> bool) \<Rightarrow> 'a list \<Rightarrow> nat option" where
  "findIndex P [] = None"
| "findIndex P (x # xs) = (if P x then Some 0 else map_option Suc (findIndex P xs))"

text \<open>\<^verbatim>\<open>prev.filter((_, i) => i !== existing)\<close>.\<close>

definition dropIndex :: "nat option \<Rightarrow> 'a list \<Rightarrow> 'a list" where
  "dropIndex existing prev =
     map snd (filter (\<lambda>(i, c). Some i \<noteq> existing) (zip [0..<length prev] prev))"

text \<open>The updater passed to \<^verbatim>\<open>setUnsavedChanges\<close> by \<^verbatim>\<open>updateTranslation\<close>.\<close>

definition trackChange :: "string \<Rightarrow> string \<Rightarrow> jv \<Rightarrow> string \<Rightarrow> UnsavedChange list \<Rightarrow> UnsavedChange list" where
  "trackChange kp lang orig val prev =
     (let existing = findIndex (\<lambda>c. keyPath c = kp \<and> language c = lang) prev in
      if Str val = orig then dropIndex existing prev
      else
        let change = \<lparr>keyPath = kp, language = lang, originalValue = orig, newValue = val\<rparr> in
        (case existing of
           Some i \<Rightarrow> prev[i := change]
         | None \<Rightarrow> prev @ [change]))"

text \<open>
  \<^verbatim>\<open>if (current[lastKey]) current[lastKey][language] = value\<close> on the copy \<open>tree\<close>, where
  \<open>target\<close> is \<^verbatim>\<open>current[lastKey]\<close>.  The module is strict code, so creating a property on
  a string throws; the setter \<^verbatim>\<open>__proto__\<close> is called on a string as on an object.
\<close>

definition writeValue :: "obj \<Rightarrow> string list \<Rightarrow> jv option \<Rightarrow> string \<Rightarrow> string \<Rightarrow> stop + obj" where
  "writeValue tree ks target lang val =
     (if truthy target then
        (case target of
           Some (Obj c) \<Rightarrow>
             (case assign c lang (Str val) of
                Inl e \<Rightarrow> Inl e
              | Inr c' \<Rightarrow> Inr (modifyAt ks (\<lambda>_. c') tree))
         | _ \<Rightarrow> if lang = ''__proto__'' then Inl BuiltIn else Inl (Throw TypeError))
      else Inr tree)"

text \<open>
  The second navigation of \<^verbatim>\<open>updateTranslation\<close>, in the snapshot:
  \<^verbatim>\<open>originalCurrent[lastKey]?.[language] || ''\<close> after the loop over the leading segments.
\<close>

definition readOriginal :: "obj \<Rightarrow> string list \<Rightarrow> string \<Rightarrow> stop + jv" where
  "readOriginal otree keys lang =
     (case navigate (Some (Obj otree)) (butlast keys) of
        Inl e \<Rightarrow> Inl e
      | Inr originalCurrent \<Rightarrow>
     (case getProp originalCurrent (last keys) of
        Inl e \<Rightarrow> Inl e
      | Inr originalTarget \<Rightarrow> originalValueOf originalTarget lang))"

definition updateTranslation :: "state \<Rightarrow> string \<Rightarrow> string \<Rightarrow> string \<Rightarrow> stop + state" where
  "updateTranslation s kp lang val =
     (case (data s, originalData s) of
        (Some d, Some od) \<Rightarrow>
          let keys = splitDot kp; lastKey = last keys in
          (case navigate (Some (Obj (translations' d))) (butlast keys) of
             Inl e \<Rightarrow> Inl e
           | Inr current \<Rightarrow>
          (case getProp current lastKey of
             Inl e \<Rightarrow> Inl e
           | Inr target \<Rightarrow>
          (case writeValue (translations' d) keys target lang val of
             Inl e \<Rightarrow> Inl e
           | Inr tree' \<Rightarrow>
          (case readOriginal (translations' od) keys lang of
             Inl e \<Rightarrow> Inl e
           | Inr orig \<Rightarrow>
               Inr (s\<lparr>unsavedChanges := trackChange kp lang orig val (unsavedChanges s),
                      data := Some (d\<lparr>translations' := tree'\<rparr>)\<rparr>)))))
      | _ \<Rightarrow> Inr s)"

section \<open>renameKey\<close>

text \<open>
  \<^verbatim>\<open>if (parent[oldKey] !== undefined) { parent[newKeyName] = parent[oldKey]; delete
  parent[oldKey] }\<close> on the object \<open>parent\<close>.
\<close>

definition renameIn :: "string \<Rightarrow> string \<Rightarrow> obj \<Rightarrow> stop + obj" where
  "renameIn oldKey newKeyName parent =
     (case getProp (Some (Obj parent)) oldKey of
        Inl e \<Rightarrow> Inl e
      | Inr None \<Rightarrow> Inr parent
      | Inr (Some v) \<Rightarrow>
          (case assign parent newKeyName v of
             Inl e \<Rightarrow> Inl e
           | Inr parent' \<Rightarrow> Inr (delete parent' oldKey)))"

definition key_rename :: string where
  "key_rename = ''__key_rename__''"

text \<open>
  \<^verbatim>\<open>renameKey\<close>: the loop leads to \<open>parent\<close>; reading \<^verbatim>\<open>parent[oldKey]\<close> throws on
  \<^verbatim>\<open>undefined\<close> and finds a member of the host on a string.
\<close>

definition renameKey :: "state \<Rightarrow> string \<Rightarrow> string \<Rightarrow> stop + state" where
  "renameKey s oldPath newKeyName =
     (case data s of
        None \<Rightarrow> Inr s
      | Some d \<Rightarrow>
          let keys = splitDot oldPath; oldKey = last keys in
          (case navigate (Some (Obj (translations' d))) (butlast keys) of
             Inl e \<Rightarrow> Inl e
           | Inr None \<Rightarrow> Inl (Throw TypeError)
           | Inr (Some (Str x)) \<Rightarrow> Inl BuiltIn
           | Inr (Some (Obj parent)) \<Rightarrow>
          (case renameIn oldKey newKeyName parent of
             Inl e \<Rightarrow> Inl e
           | Inr parent' \<Rightarrow>
               Inr (s\<lparr>data := Some (d\<lparr>translations' :=
                          modifyAt (butlast keys) (\<lambda>_. parent') (translations' d)\<rparr>),
                      unsavedChanges := unsavedChanges s @
                        [\<lparr>keyPath = oldPath, language = key_rename,
                          originalValue = Str oldKey, newValue = newKeyName\<rparr>]\<rparr>))))"

section \<open>The node classifier\<close>

text \<open>\<^verbatim>\<open>Object.keys(value).some(k => data.languages.includes(k))\<close>.\<close>

definition isLeafNode :: "string list \<Rightarrow> obj \<Rightarrow> bool" where
  "isLeafNode langs kvs = list_ex (\<lambda>k. k \<in> set langs) (map fst kvs)"

section \<open>addLanguage and removeLanguage\<close>

text \<open>
  \<^verbatim>\<open>addLanguageToNode\<close>: \<open>result\<close> starts empty and the loop over \<^verbatim>\<open>Object.entries(node)\<close>
  assigns \<^verbatim>\<open>result[key]\<close>; an entry that is not an object is skipped.  The spread
  \<^verbatim>\<open>{ ...value, [languageCode]: '' }\<close> is a copy of \<open>value\<close> with the property defined.
\<close>

fun addLanguageToNode :: "string list \<Rightarrow> string \<Rightarrow> obj \<Rightarrow> stop + obj"
  and addLanguageEntries :: "string list \<Rightarrow> string \<Rightarrow> obj \<Rightarrow> obj \<Rightarrow> stop + obj" where
  "addLanguageToNode langs c node = addLanguageEntries langs c node []"
| "addLanguageEntries langs c [] result = Inr result"
| "addLanguageEntries langs c ((key, Str s) # rest) result =
     addLanguageEntries langs c rest result"
| "addLanguageEntries langs c ((key, Obj v) # rest) result =
     (case (if isLeafNode langs v then Inr (setOwn v c (Str []))
            else addLanguageToNode langs c v) of
        Inl e \<Rightarrow> Inl e
      | Inr x \<Rightarrow>
     (case assign result key (Obj x) of
        Inl e \<Rightarrow> Inl e
      | Inr result' \<Rightarrow> addLanguageEntries langs c rest result'))"

definition addLanguage :: "state \<Rightarrow> string \<Rightarrow> stop + state" where
  "addLanguage s c =
     (case data s of
        None \<Rightarrow> Inr s
      | Some d \<Rightarrow>
          if c \<in> set (languages d) then Inr s
          else
            (case addLanguageToNode (languages d) c (translations' d) of
               Inl e \<Rightarrow> Inl e
             | Inr tree \<Rightarrow>
                 Inr (s\<lparr>data := Some (d\<lparr>languages := languages d @ [c],
                                             translations' := tree\<rparr>)\<rparr>)))"

text \<open>
  \<^verbatim>\<open>removeLanguageFromNode\<close>: the rest pattern \<^verbatim>\<open>const { [languageCode]: _, ...rest } = value\<close>
  is a copy of \<open>value\<close> without the property.
\<close>

fun removeLanguageFromNode :: "string list \<Rightarrow> string \<Rightarrow> obj \<Rightarrow> stop + obj"
  and removeLanguageEntries :: "string list \<Rightarrow> string \<Rightarrow> obj \<Rightarrow> obj \<Rightarrow> stop + obj" where
  "removeLanguageFromNode langs c node = removeLanguageEntries langs c node []"
| "removeLanguageEntries langs c [] result = Inr result"
| "removeLanguageEntries langs c ((key, Str s) # rest) result =
     removeLanguageEntries langs c rest result"
| "removeLanguageEntries langs c ((key, Obj v) # rest) result =
     (case (if isLeafNode langs v then Inr (delete v c)
            else removeLanguageFromNode langs c v) of
        Inl e \<Rightarrow> Inl e
      | Inr x \<Rightarrow>
     (case assign result key (Obj x) of
        Inl e \<Rightarrow> Inl e
      | Inr result' \<Rightarrow> removeLanguageEntries langs c rest result'))"

definition removeLanguage :: "state \<Rightarrow> string \<Rightarrow> stop + state" where
  "removeLanguage s c =
     (case data s of
        None \<Rightarrow> Inr s
      | Some d \<Rightarrow>
          if length (languages d) \<le> 1 then Inr s
          else
            (case removeLanguageFromNode (languages d) c (translations' d) of
               Inl e \<Rightarrow> Inl e
             | Inr tree \<Rightarrow>
                 Inr (s\<lparr>data := Some (d\<lparr>languages := filter (\<lambda>l. l \<noteq> c) (languages d),
                                             translations' := tree\<rparr>)\<rparr>)))"

section \<open>saveChanges, discardChanges and the fetch\<close>

text \<open>The simulated API call of \<^verbatim>\<open>saveChanges\<close> is a timer and cannot fail.\<close>

definition saveChanges :: "state \<Rightarrow> state" where
  "saveChanges s =
     (case data s of
        None \<Rightarrow> s
      | Some d \<Rightarrow> s\<lparr>originalData := Some d, unsavedChanges := []\<rparr>)"

definition discardChanges :: "state \<Rightarrow> state" where
  "discardChanges s =
     (case originalData s of
        None \<Rightarrow> s
      | Some od \<Rightarrow> s\<lparr>data := Some od, unsavedChanges := []\<rparr>)"

text \<open>
  The mock catalog of the source; \<open>leafOf en de\<close> abbreviates one of its leaves, and the
  two accented letters are written as their code units.
\<close>

definition leafOf :: "string \<Rightarrow> string \<Rightarrow> jv" where
  "leafOf en de = Obj [(''en'', Str en), (''de'', Str de)]"

definition mockData :: TranslationData where
  "mockData =
     \<lparr>project = ''Languge Management System'',
      languages = [''en'', ''de''],
      translations' =
        [(''auth'', Obj
           [(''login'', Obj
              [(''title'', leafOf ''Login'' ''Anmelden''),
               (''subtitle'', leafOf ''Welcome back'' (''Willkommen zur'' @ [CHR 0xFC] @ ''ck'')),
               (''button'', leafOf ''Sign In'' ''Einloggen''),
               (''forgot_password'', leafOf ''Forgot password?'' [])]),
            (''register'', Obj
              [(''title'', leafOf ''Create Account'' ''Konto erstellen''),
               (''subtitle'', leafOf ''Join us today'' ''Heute beitreten'')])]),
         (''dashboard'', Obj
           [(''welcome'', leafOf ''Hello User'' ''Hallo Benutzer''),
            (''stats'', Obj
              [(''title'', leafOf ''Statistics'' ''Statistiken''),
               (''description'', leafOf ''Your performance overview'' [])])]),
         (''common'', Obj
           [(''buttons'', Obj
              [(''save'', leafOf ''Save'' ''Speichern''),
               (''cancel'', leafOf ''Cancel'' ''Abbrechen''),
               (''delete'', leafOf ''Delete'' (''L'' @ [CHR 0xF6] @ ''schen''))]),
            (''errors'', Obj
              [(''not_found'', leafOf ''Not found'' ''Nicht gefunden''),
               (''server_error'', leafOf ''Server error'' [])])])]\<rparr>"

text \<open>
  \<^verbatim>\<open>fetchTranslations\<close>, once its timer has resolved: the catalog and its deep copy.  It
  leaves the pending changes as they are.
\<close>

definition fetchTranslations :: "state \<Rightarrow> state" where
  "fetchTranslations s = s\<lparr>data := Some mockData, originalData := Some mockData\<rparr>"

definition initial :: state where
  "initial = \<lparr>data = None, originalData = None, unsavedChanges = []\<rparr>"

section \<open>Sequences of calls\<close>

datatype op =
    UpdateTranslation string string string
  | RenameKey string string
  | AddLanguage string
  | RemoveLanguage string
  | SaveChanges
  | DiscardChanges
  | Refetch

text \<open>
  The state after a call: a call that throws has replaced no state cell; after a call
  that reached a built-in member the state is not known (\<^term>\<open>None\<close>).
\<close>

fun orKeep :: "state \<Rightarrow> stop + state \<Rightarrow> state option" where
  "orKeep s (Inl (Throw e)) = Some s"
| "orKeep s (Inl BuiltIn) = None"
| "orKeep s (Inr s') = Some s'"

fun apply_op :: "state \<Rightarrow> op \<Rightarrow> state option" where
  "apply_op s (UpdateTranslation kp lang val) = orKeep s (updateTranslation s kp lang val)"
| "apply_op s (RenameKey oldPath newKeyName) = orKeep s (renameKey s oldPath newKeyName)"
| "apply_op s (AddLanguage c) = orKeep s (addLanguage s c)"
| "apply_op s (RemoveLanguage c) = orKeep s (removeLanguage s c)"
| "apply_op s SaveChanges = Some (saveChanges s)"
| "apply_op s DiscardChanges = Some (discardChanges s)"
| "apply_op s Refetch = Some (fetchTranslations s)"

text \<open>
  A sequence of calls, each on the state the call before it left; \<^term>\<open>None\<close> when one of
  them reached a built-in member.
\<close>

fun run :: "state \<Rightarrow> op list \<Rightarrow> state option" where
  "run s [] = Some s"
| "run s (x # xs) = (case apply_op s x of None \<Rightarrow> None | Some s' \<Rightarrow> run s' xs)"

text \<open>What \<open>f\<close> observes in the state the calls \<open>ops\<close> lead to from the initial state.\<close>

definition after :: "op list \<Rightarrow> (state \<Rightarrow> 'a) \<Rightarrow> 'a option" where
  "after ops f = map_option f (run initial ops)"

text \<open>
  What the navigation loop finds in the current catalog when it walks a whole key path:
  \<^term>\<open>Inr None\<close> is \<^verbatim>\<open>undefined\<close>.
\<close>

definition nodeAt :: "state \<Rightarrow> string \<Rightarrow> stop + jv option" where
  "nodeAt s p =
     (case data s of
        None \<Rightarrow> Inr None
      | Some d \<Rightarrow> navigate (Some (Obj (translations' d))) (splitDot p))"

section \<open>Predicates on the pending changes\<close>







section \<open>JavaScript numbers\<close>

text \<open>
  A number is an IEEE 754 double, and every arithmetic operation rounds its exact result
  to the nearest double, ties to the even significand.  The numbers that \<^verbatim>\<open>buildTree\<close>
  computes are finite and not negative; a double is kept as the rational number it
  denotes.  A length is an integer below \<open>2^32\<close> and is exact.  (No quotient of two lengths
  and no sum of fewer than \<open>2^32\<close> percentages leaves the range of the doubles, so
  infinities are not needed; the divisions of \<^verbatim>\<open>buildTree\<close> have a divisor that is not zero.)
\<close>

text \<open>The number of binary digits of a positive integer.\<close>

function bits :: "int \<Rightarrow> int" where
  "bits n = (if n \<le> 0 then 0 else 1 + bits (n div 2))"
  by pat_completeness auto
termination
  by (relation "measure nat") auto

definition pow2 :: "int \<Rightarrow> rat" where
  "pow2 e = (if 0 \<le> e then 2 ^ nat e else 1 / 2 ^ nat (- e))"

text \<open>The binary exponent of a positive rational \<open>x\<close>: \<open>2^e \<le> x < 2^(e+1)\<close>.\<close>

definition ilog2 :: "rat \<Rightarrow> int" where
  "ilog2 x = (case quotient_of x of (a, b) \<Rightarrow>
     let k = bits a - bits b in if pow2 k \<le> x then k else k - 1)"

definition roundEven :: "rat \<Rightarrow> int" where
  "roundEven q = (let f = \<lfloor>q\<rfloor>; d = q - of_int f in
     if d < 1 / 2 then f else if 1 / 2 < d then f + 1 else if even f then f else f + 1)"

text \<open>
  The double nearest to \<open>x \<ge> 0\<close>: 53 significant binary digits, with the fixed spacing
  \<open>2^-1074\<close> of the subnormal numbers below \<open>2^-1022\<close>.
\<close>

definition fl :: "rat \<Rightarrow> rat" where
  "fl x = (if x \<le> 0 then 0
     else let ulp = pow2 (max (ilog2 x) (- 1022) - 52) in of_int (roundEven (x / ulp)) * ulp)"

definition fadd :: "rat \<Rightarrow> rat \<Rightarrow> rat" where
  "fadd a b = fl (a + b)"

definition fmul :: "rat \<Rightarrow> rat \<Rightarrow> rat" where
  "fmul a b = fl (a * b)"

definition fdiv :: "rat \<Rightarrow> rat \<Rightarrow> rat" where
  "fdiv a b = fl (a / b)"

section \<open>buildTree\<close>

text \<open>
  A display node.  \<^verbatim>\<open>children\<close> and \<^verbatim>\<open>values\<close> are optional in the source; \<^verbatim>\<open>buildTree\<close>
  always sets \<^verbatim>\<open>completeness\<close>, a double.
\<close>

datatype TreeNode = TreeNode
  (key: string) (path: string) (depth: nat) (isLeaf: bool)
  (children: "TreeNode list option") (values': "obj option") (completeness: rat)

text \<open>
  \<^verbatim>\<open>String.prototype.trim\<close> on code units below 256: tab, line feed, vertical tab, form
  feed, carriage return, space and the no-break space are white space.
\<close>

definition whitespace :: "char \<Rightarrow> bool" where
  "whitespace c = ((of_char c :: int) \<in> {9, 10, 11, 12, 13, 32, 160})"

definition trim :: "string \<Rightarrow> string" where
  "trim s = rev (dropWhile whitespace (rev (dropWhile whitespace s)))"

text \<open>
  The filter callback \<^verbatim>\<open>lang => values[lang]?.trim()\<close> as a condition: \<^verbatim>\<open>undefined\<close>
  short-circuits to falsy, and a value that is an object has no \<^verbatim>\<open>trim\<close> to call.  Nor
  has the member that \<^verbatim>\<open>values[lang]\<close> finds when the leaf has no property \<open>lang\<close> itself
  and \<open>lang\<close> is the name of an inherited member (a function, or the prototype under
  \<^verbatim>\<open>__proto__\<close>): the call of \<^verbatim>\<open>trim\<close> throws.
\<close>

definition filled :: "obj \<Rightarrow> string \<Rightarrow> stop + bool" where
  "filled vals lang =
     (case map_of vals lang of
        Some (Str s) \<Rightarrow> Inr (trim s \<noteq> [])
      | Some (Obj c) \<Rightarrow> Inl (Throw TypeError)
      | None \<Rightarrow> if inherited lang then Inl (Throw TypeError) else Inr False)"

text \<open>\<^verbatim>\<open>data.languages.filter(lang => values[lang]?.trim()).length\<close>.\<close>

fun filledCount :: "obj \<Rightarrow> string list \<Rightarrow> stop + nat" where
  "filledCount vals [] = Inr 0"
| "filledCount vals (lang # rest) =
     (case filled vals lang of
        Inl e \<Rightarrow> Inl e
      | Inr b \<Rightarrow>
     (case filledCount vals rest of
        Inl e \<Rightarrow> Inl e
      | Inr n \<Rightarrow> Inr (if b then Suc n else n)))"

text \<open>\<^verbatim>\<open>path ? `${path}.${key}` : key\<close>.\<close>

definition joinPath :: "string \<Rightarrow> string \<Rightarrow> string" where
  "joinPath p k = (if p \<noteq> [] then p @ ''.'' @ k else k)"

text \<open>
  \<^verbatim>\<open>children.reduce((sum, child) => sum + (child.completeness || 0), 0)\<close> and the average;
  \<^verbatim>\<open>x || 0\<close> is \<open>x\<close> for a number that is not \<^verbatim>\<open>NaN\<close>.
\<close>

definition avgCompleteness :: "TreeNode list \<Rightarrow> rat" where
  "avgCompleteness cs =
     (let totalCompleteness = foldl (\<lambda>sum child. fadd sum (completeness child)) 0 cs in
      if length cs > 0 then fdiv totalCompleteness (of_nat (length cs)) else 100)"

text \<open>
  \<^verbatim>\<open>buildTree\<close> maps the callback \<open>buildNode\<close> over \<^verbatim>\<open>Object.entries(node)\<close>.  An entry that
  is the empty string has no keys and no entries, so it becomes a node without children.
  The keys of a non-empty string are the positions of its characters: where no active
  language code is an array-index name the string is no leaf, the recursion walks its
  characters without end and the call stack overflows; where one is, the callback may go
  on with the characters of the string.
\<close>

fun buildTree :: "TranslationData option \<Rightarrow> obj \<Rightarrow> string \<Rightarrow> nat \<Rightarrow> stop + TreeNode list"
  and buildNode :: "TranslationData \<Rightarrow> string \<Rightarrow> jv \<Rightarrow> string \<Rightarrow> nat \<Rightarrow> stop + TreeNode" where
  "buildTree None node p dep = Inr []"
| "buildTree (Some d) [] p dep = Inr []"
| "buildTree (Some d) ((k, v) # rest) p dep =
     (case buildNode d k v p dep of
        Inl e \<Rightarrow> Inl e
      | Inr n \<Rightarrow>
     (case buildTree (Some d) rest p dep of
        Inl e \<Rightarrow> Inl e
      | Inr ns \<Rightarrow> Inr (n # ns)))"
| "buildNode d k (Str s) p dep =
     (if s = [] then Inr (TreeNode k (joinPath p k) dep False (Some []) None 100)
      else if list_ex is_index (languages d) then Inl BuiltIn
      else Inl (Throw StackOverflow))"
| "buildNode d k (Obj vals) p dep =
     (let currentPath = joinPath p k in
      if isLeafNode (languages d) vals then
        (case filledCount vals (languages d) of
           Inl e \<Rightarrow> Inl e
         | Inr n \<Rightarrow>
             Inr (TreeNode k currentPath dep True None (Some vals)
                    (fmul (fdiv (of_nat n) (of_nat (length (languages d)))) 100)))
      else
        (case buildTree (Some d) vals currentPath (dep + 1) of
           Inl e \<Rightarrow> Inl e
         | Inr cs \<Rightarrow> Inr (TreeNode k currentPath dep False (Some cs) None (avgCompleteness cs))))"

section \<open>exportToJson\<close>

text \<open>
  \<^verbatim>\<open>extractLanguage\<close>: for a leaf, \<^verbatim>\<open>result[key] = value[lang] || ''\<close>; for any other object
  the result of the recursion is assigned.
\<close>

fun extractLanguage :: "string list \<Rightarrow> string \<Rightarrow> obj \<Rightarrow> stop + obj"
  and extractEntries :: "string list \<Rightarrow> string \<Rightarrow> obj \<Rightarrow> obj \<Rightarrow> stop + obj" where
  "extractLanguage langs lang node = extractEntries langs lang node []"
| "extractEntries langs lang [] result = Inr result"
| "extractEntries langs lang ((k, Str s) # rest) result =
     extractEntries langs lang rest result"
| "extractEntries langs lang ((k, Obj v) # rest) result =
     (case (if isLeafNode langs v
            then (case getProp (Some (Obj v)) lang of
                    Inl e \<Rightarrow> Inl e
                  | Inr x \<Rightarrow> Inr (orEmpty x))
            else (case extractLanguage langs lang v of
                    Inl e \<Rightarrow> Inl e
                  | Inr r \<Rightarrow> Inr (Obj r))) of
        Inl e \<Rightarrow> Inl e
      | Inr x \<Rightarrow>
     (case assign result k x of
        Inl e \<Rightarrow> Inl e
      | Inr result' \<Rightarrow> extractEntries langs lang rest result'))"

text \<open>The optional argument is absent (\<^term>\<open>None\<close>) or a string; the empty string is falsy.\<close>

definition exportToJson :: "state \<Rightarrow> string option \<Rightarrow> stop + obj option" where
  "exportToJson s lang =
     (case data s of
        None \<Rightarrow> Inr None
      | Some d \<Rightarrow>
          (case lang of
             Some l \<Rightarrow>
               if l \<noteq> [] then
                 (case extractLanguage (languages d) l (translations' d) of
                    Inl e \<Rightarrow> Inl e
                  | Inr r \<Rightarrow> Inr (Some r))
               else Inr (Some (translations' d))
           | None \<Rightarrow> Inr (Some (translations' d))))"

section \<open>The data model of the specification\<close>

text \<open>
  A translation tree as the data model describes it: below the root, a node is an object;
  a node with a property named by an active language is a leaf and holds only strings;
  any other node is a namespace and holds only nodes.
\<close>

fun well_typed :: "string list \<Rightarrow> jv \<Rightarrow> bool"
  and well_typed_kids :: "string list \<Rightarrow> obj \<Rightarrow> bool" where
  "well_typed langs (Str s) = False"
| "well_typed langs (Obj v) =
     (if isLeafNode langs v then list_all (\<lambda>x. case x of Str s \<Rightarrow> True | Obj c \<Rightarrow> False) (map snd v)
      else well_typed_kids langs v)"
| "well_typed_kids langs [] = True"
| "well_typed_kids langs ((k, v) # rest) = (well_typed langs v \<and> well_typed_kids langs rest)"

text \<open>
  The catalog invariant: the key set of every leaf is a subset of the language list.  The
  leaves are the objects the traversals of the hook classify as leaves; entries that are
  strings are passed over, as the traversals do.
\<close>

fun leaf_keys_ok :: "string list \<Rightarrow> jv \<Rightarrow> bool"
  and leaf_keys_ok_kids :: "string list \<Rightarrow> obj \<Rightarrow> bool" where
  "leaf_keys_ok langs (Str s) = True"
| "leaf_keys_ok langs (Obj v) =
     (if isLeafNode langs v then list_all (\<lambda>k. k \<in> set langs) (map fst v)
      else leaf_keys_ok_kids langs v)"
| "leaf_keys_ok_kids langs [] = True"
| "leaf_keys_ok_kids langs ((k, v) # rest) = (leaf_keys_ok langs v \<and> leaf_keys_ok_kids langs rest)"

definition catalog_inv :: "TranslationData \<Rightarrow> bool" where
  "catalog_inv d = leaf_keys_ok_kids (languages d) (translations' d)"

text \<open>No namespace below the root has a child segment named \<open>c\<close>.\<close>

fun segment_free :: "string \<Rightarrow> string list \<Rightarrow> jv \<Rightarrow> bool"
  and segment_free_kids :: "string \<Rightarrow> string list \<Rightarrow> obj \<Rightarrow> bool" where
  "segment_free c langs (Str s) = True"
| "segment_free c langs (Obj v) =
     (isLeafNode langs v \<or> (c \<notin> set (map fst v) \<and> segment_free_kids c langs v))"
| "segment_free_kids c langs [] = True"
| "segment_free_kids c langs ((k, v) # rest) =
     (segment_free c langs v \<and> segment_free_kids c langs rest)"

text \<open>
  The single-language export as the specification words it: the same nesting and the same
  keys in the same order, every leaf replaced by its string for the language, the empty
  string where the leaf has none.
\<close>

fun spec_export :: "string list \<Rightarrow> string \<Rightarrow> jv \<Rightarrow> jv"
  and spec_export_kids :: "string list \<Rightarrow> string \<Rightarrow> obj \<Rightarrow> obj" where
  "spec_export langs l (Str s) = Str s"
| "spec_export langs l (Obj v) =
     (if isLeafNode langs v then (case map_of v l of Some (Str x) \<Rightarrow> Str x | _ \<Rightarrow> Str [])
      else Obj (spec_export_kids langs l v))"
| "spec_export_kids langs l [] = []"
| "spec_export_kids langs l ((k, v) # rest) =
     (k, spec_export langs l v) # spec_export_kids langs l rest"

text \<open>
  The completeness annotation as the specification words it, its quotients, products and
  sums being those of JavaScript numbers.  \<open>annotated langs v n\<close>: the display node \<open>n\<close>
  carries the completeness the specification gives the tree node \<open>v\<close>, and so do its
  descendants.
\<close>

definition nonBlank :: "jv option \<Rightarrow> bool" where
  "nonBlank x = (case x of Some (Str s) \<Rightarrow> trim s \<noteq> [] | _ \<Rightarrow> False)"

definition leafCompleteness :: "string list \<Rightarrow> obj \<Rightarrow> rat" where
  "leafCompleteness langs v =
     fmul (fdiv (of_nat (length (filter (\<lambda>l. nonBlank (map_of v l)) langs)))
                (of_nat (length langs))) 100"

text \<open>The sum of a list of numbers, taken from the left, and their mean.\<close>

definition total :: "rat list \<Rightarrow> rat" where
  "total xs = foldl fadd 0 xs"

definition meanCompleteness :: "TreeNode list \<Rightarrow> rat" where
  "meanCompleteness cs =
     (if cs = [] then 100 else fdiv (total (map completeness cs)) (of_nat (length cs)))"

fun annotated :: "string list \<Rightarrow> jv \<Rightarrow> TreeNode \<Rightarrow> bool"
  and annotated_kids :: "string list \<Rightarrow> obj \<Rightarrow> TreeNode list \<Rightarrow> bool" where
  "annotated langs (Str s) n = False"
| "annotated langs (Obj v) n =
     (if isLeafNode langs v
      then isLeaf n \<and> values' n = Some v \<and> completeness n = leafCompleteness langs v
      else \<not> isLeaf n \<and>
           (case children n of
              None \<Rightarrow> False
            | Some cs \<Rightarrow> annotated_kids langs v cs \<and> completeness n = meanCompleteness cs))"
| "annotated_kids langs [] ns = (ns = [])"
| "annotated_kids langs ((k, v) # rest) ns =
     (case ns of
        [] \<Rightarrow> False
      | n # ns' \<Rightarrow> key n = k \<and> annotated langs v n \<and> annotated_kids langs rest ns')"

text \<open>No object of the tree is stored under the name \<^verbatim>\<open>__proto__\<close>.\<close>

fun no_proto :: "jv \<Rightarrow> bool"
  and no_proto_kids :: "obj \<Rightarrow> bool" where
  "no_proto (Str s) = True"
| "no_proto (Obj v) = no_proto_kids v"
| "no_proto_kids [] = True"
| "no_proto_kids ((k, v) # rest) =
     ((case v of Obj c \<Rightarrow> k \<noteq> ''__proto__'' | Str s \<Rightarrow> True) \<and> no_proto v \<and> no_proto_kids rest)"

text \<open>
  A catalog of the data model: its tree is made of JavaScript objects, is a translation
  tree for its language list, and satisfies the catalog invariant.
\<close>

definition wf_catalog :: "TranslationData \<Rightarrow> bool" where
  "wf_catalog d =
     (valid_obj (translations' d) \<and> well_typed_kids (languages d) (translations' d) \<and>
      catalog_inv d)"









section \<open>Functions for the proofs\<close>

text \<open>
  What the rename and the three traversals return where every assignment defines a
  property: the proofs below work with these and show that the functions of the hook
  return them.
\<close>

definition renamed :: "string \<Rightarrow> string \<Rightarrow> obj \<Rightarrow> obj" where
  "renamed oldKey newKeyName parent =
     (case map_of parent oldKey of
        None \<Rightarrow> parent
      | Some v \<Rightarrow> delete (setOwn parent newKeyName v) oldKey)"

fun added :: "string list \<Rightarrow> string \<Rightarrow> obj \<Rightarrow> obj"
  and addedEntries :: "string list \<Rightarrow> string \<Rightarrow> obj \<Rightarrow> obj \<Rightarrow> obj" where
  "added langs c node = addedEntries langs c node []"
| "addedEntries langs c [] result = result"
| "addedEntries langs c ((k, value) # rest) result =
     addedEntries langs c rest
       (case value of
          Obj v \<Rightarrow>
            if isLeafNode langs v then setOwn result k (Obj (setOwn v c (Str [])))
            else setOwn result k (Obj (added langs c v))
        | Str s \<Rightarrow> result)"

fun removed :: "string list \<Rightarrow> string \<Rightarrow> obj \<Rightarrow> obj"
  and removedEntries :: "string list \<Rightarrow> string \<Rightarrow> obj \<Rightarrow> obj \<Rightarrow> obj" where
  "removed langs c node = removedEntries langs c node []"
| "removedEntries langs c [] result = result"
| "removedEntries langs c ((k, value) # rest) result =
     removedEntries langs c rest
       (case value of
          Obj v \<Rightarrow>
            if isLeafNode langs v then setOwn result k (Obj (delete v c))
            else setOwn result k (Obj (removed langs c v))
        | Str s \<Rightarrow> result)"

fun extracted :: "string list \<Rightarrow> string \<Rightarrow> obj \<Rightarrow> obj"
  and extractedEntries :: "string list \<Rightarrow> string \<Rightarrow> obj \<Rightarrow> obj \<Rightarrow> obj" where
  "extracted langs lang node = extractedEntries langs lang node []"
| "extractedEntries langs lang [] result = result"
| "extractedEntries langs lang ((k, value) # rest) result =
     extractedEntries langs lang rest
       (case value of
          Obj v \<Rightarrow>
            if isLeafNode langs v then setOwn result k (orEmpty (map_of v lang))
            else setOwn result k (Obj (extracted langs lang v))
        | Str s \<Rightarrow> result)"

section \<open>Facts about objects and navigation\<close>

lemma splitDot_nonempty: "splitDot s \<noteq> []"
  by (induction s) (auto split: list.splits)

lemma navigate_None: "navigate None ks = (if ks = [] then Inr None else Inl (Throw TypeError))"
  by (cases ks) auto

lemma navigate_Str:
  "navigate (Some (Str s)) ks = (if ks = [] then Inr (Some (Str s)) else Inl BuiltIn)"
  by (cases ks) auto

lemma navigate_snoc:
  "navigate cur (ks @ [k]) = (case navigate cur ks of Inl e \<Rightarrow> Inl e | Inr c \<Rightarrow> getProp c k)"
  by (induction ks arbitrary: cur) (auto split: sum.splits)

lemma getProp_Some:
  "getProp c k = Inr (Some v) \<longleftrightarrow> (\<exists>p. c = Some (Obj p) \<and> map_of p k = Some v)"
  by (cases c; cases "the c") (auto split: option.splits)

lemma getProp_Obj_None:
  "getProp (Some (Obj p)) k = Inr None \<longleftrightarrow> map_of p k = None \<and> \<not> inherited k"
  by (auto split: option.splits)

lemma getProp_throws: "getProp c k = Inl (Throw e) \<longleftrightarrow> c = None \<and> e = TypeError"
  by (cases c; cases "the c") (auto split: option.splits)

lemma navigate_throws: "navigate c ks = Inl (Throw e) \<Longrightarrow> e = TypeError"
  by (induction ks arbitrary: c) (auto simp: getProp_throws split: sum.splits)

lemma proto_inherited: "inherited ''__proto__''"
  by (simp add: inherited_def object_members_def)

lemma map_of_upd_key:
  "map_of (upd_key k g kvs) j = (if j = k then map_option g (map_of kvs k) else map_of kvs j)"
  by (induction kvs) auto

lemma upd_key_at:
  "map_of kvs k = Some v \<Longrightarrow> g v = h v \<Longrightarrow> upd_key k g kvs = upd_key k h kvs"
  by (induction kvs) (auto split: if_splits)

lemma map_of_ins_index:
  "k \<notin> set (map fst kvs) \<Longrightarrow>
   map_of (ins_index k v kvs) j = (if j = k then Some v else map_of kvs j)"
  by (induction kvs) auto

lemma map_of_setOwn: "map_of (setOwn kvs k v) j = (if j = k then Some v else map_of kvs j)"
proof (cases "k \<in> set (map fst kvs)")
  case True
  have "map_of (map (\<lambda>(k', v'). if k' = k then (k', v) else (k', v')) kvs) j =
        (if j = k then map_option (\<lambda>_. v) (map_of kvs k) else map_of kvs j)"
    by (induction kvs) auto
  moreover from True obtain w where "map_of kvs k = Some w"
    by (metis domD dom_map_of_conv_image_fst set_map)
  ultimately show ?thesis using True by (simp add: setOwn_def)
next
  case False
  then have "map_of kvs k = None" by (simp add: map_of_eq_None_iff)
  with False show ?thesis
    by (auto simp: setOwn_def map_of_ins_index map_add_def split: option.splits)
qed

lemma map_of_delete: "map_of (delete kvs k) j = (if j = k then None else map_of kvs j)"
  by (induction kvs) (auto simp: delete_def)

lemma navigate_parent_modifyAt:
  "navigate (Some (Obj t)) q = Inr (Some (Obj p)) \<Longrightarrow>
   navigate (Some (Obj (modifyAt q f t))) q = Inr (Some (Obj (f p)))"
proof (induction q arbitrary: t)
  case Nil
  then show ?case by simp
next
  case (Cons k ks)
  from Cons.prems obtain c where c: "map_of t k = Some (Obj c)"
    and nav: "navigate (Some (Obj c)) ks = Inr (Some (Obj p))"
    by (cases "map_of t k"; cases "the (map_of t k)")
       (auto simp: navigate_None navigate_Str split: if_splits)
  from Cons.IH[OF nav] c show ?case
    by (simp add: map_of_upd_key)
qed

text \<open>
  A path that is no prefix of \<open>q\<close> and, where it runs through \<open>q\<close>, continues with a
  property that \<open>f\<close> leaves alone, resolves after the change as it did before.
\<close>

lemma navigate_modifyAt_other:
  assumes "\<not> prefix r q"
    and "\<And>p j rest. r = q @ j # rest \<Longrightarrow> map_of (f p) j = map_of p j"
  shows "navigate (Some (Obj (modifyAt q f t))) r = navigate (Some (Obj t)) r"
  using assms
proof (induction q arbitrary: r t)
  case Nil
  then obtain j rest where r: "r = j # rest" by (cases r) auto
  with Nil.prems(2)[of j rest t] show ?case by simp
next
  case (Cons k ks)
  from Cons.prems(1) obtain x r' where r: "r = x # r'" by (cases r) auto
  show ?case
  proof (cases "x = k")
    case False
    with r show ?thesis by (simp add: map_of_upd_key)
  next
    case True
    with r Cons.prems(1) have np: "\<not> prefix r' ks" by simp
    have hyp: "\<And>p j rest. r' = ks @ j # rest \<Longrightarrow> map_of (f p) j = map_of p j"
      using Cons.prems(2) r True by simp
    show ?thesis
    proof (cases "map_of t k")
      case None
      with r True show ?thesis by (simp add: map_of_upd_key)
    next
      case (Some v)
      show ?thesis
      proof (cases v)
        case (Str s)
        with Some r True show ?thesis by (simp add: map_of_upd_key)
      next
        case (Obj c)
        with Some r True Cons.IH[OF np hyp] show ?thesis
          by (simp add: map_of_upd_key)
      qed
    qed
  qed
qed

text \<open>
  \<open>f\<close> is applied to the one object the segments lead to, so it may be replaced by any
  function that agrees with it there.
\<close>

lemma modifyAt_at:
  "navigate (Some (Obj t)) q = Inr (Some (Obj p)) \<Longrightarrow> f p = g p \<Longrightarrow>
   modifyAt q f t = modifyAt q g t"
proof (induction q arbitrary: t)
  case Nil
  then show ?case by simp
next
  case (Cons k ks)
  from Cons.prems(1) obtain c where c: "map_of t k = Some (Obj c)"
    and nav: "navigate (Some (Obj c)) ks = Inr (Some (Obj p))"
    by (cases "map_of t k"; cases "the (map_of t k)")
       (auto simp: navigate_None navigate_Str split: if_splits)
  from Cons.IH[OF nav Cons.prems(2)] c show ?case
    by (auto intro: upd_key_at)
qed

lemma map_of_renamed_other:
  "j \<noteq> k \<Longrightarrow> j \<noteq> n \<Longrightarrow> map_of (renamed k n p) j = map_of p j"
  by (simp add: renamed_def map_of_setOwn map_of_delete split: option.splits)

lemma assign_Inr: "assign kvs k v = Inr r \<Longrightarrow> r = setOwn kvs k v"
  by (auto simp: assign_def split: if_splits)

lemma assign_other: "k \<noteq> ''__proto__'' \<Longrightarrow> assign kvs k v = Inr (setOwn kvs k v)"
  by (simp add: assign_def)


lemma renameIn_own:
  "map_of p k = Some v \<Longrightarrow> n \<noteq> ''__proto__'' \<Longrightarrow> renameIn k n p = Inr (renamed k n p)"
  by (simp add: renameIn_def renamed_def assign_def)

lemma renameIn_missing:
  "getProp (Some (Obj p)) k = Inr None \<Longrightarrow> renameIn k n p = Inr p"
  by (simp add: renameIn_def)

lemma modifyAt_same:
  "navigate (Some (Obj t)) q = Inr (Some (Obj p)) \<Longrightarrow> modifyAt q (\<lambda>_. p) t = t"
proof (induction q arbitrary: t)
  case Nil
  then show ?case by simp
next
  case (Cons k ks)
  from Cons.prems(1) obtain c where c: "map_of t k = Some (Obj c)"
    and nav: "navigate (Some (Obj c)) ks = Inr (Some (Obj p))"
    by (cases "map_of t k"; cases "the (map_of t k)")
       (auto simp: navigate_None navigate_Str split: if_splits)
  have "upd_key k (\<lambda>v. v) t = t" for t :: obj
    by (induction t) auto
  moreover from c Cons.IH[OF nav]
  have "upd_key k (\<lambda>v. case v of Obj c \<Rightarrow> Obj (modifyAt ks (\<lambda>_. p) c) | Str s \<Rightarrow> Str s) t =
        upd_key k (\<lambda>v. v) t"
    by (intro upd_key_at[OF c]) simp
  ultimately show ?case by simp
qed

lemma fetched_state:
  "data (fetchTranslations initial) = Some mockData"
  "originalData (fetchTranslations initial) = Some mockData"
  "unsavedChanges (fetchTranslations initial) = []"
  by (simp_all add: fetchTranslations_def initial_def)

lemma run_fetch: "run initial [Refetch] = Some (fetchTranslations initial)"
  by simp

section \<open>Key paths that do not resolve\<close>

text \<open>
  Claim C1 says that \<^verbatim>\<open>updateTranslation\<close> and \<^verbatim>\<open>renameKey\<close> on a key path that does not
  resolve change nothing and raise nothing.  On the loaded mock catalog an edit below the
  missing namespace \<^verbatim>\<open>missing\<close> raises a TypeError, and a rename of the missing key
  \<^verbatim>\<open>dashboard.nokey\<close> appends an entry to the pending changes.  After \<^verbatim>\<open>dashboard\<close> has been
  renamed to \<^verbatim>\<open>home\<close>, an edit of the missing key \<^verbatim>\<open>home.nokey\<close> raises a TypeError as well:
  the snapshot has no \<^verbatim>\<open>home\<close>.  And an edit of the missing key \<^verbatim>\<open>dashboard.nokey\<close> records
  a pending change.
\<close>

theorem unresolved_path_counterexample:
  "updateTranslation (fetchTranslations initial) ''missing.title'' ''en'' ''x'' =
     Inl (Throw TypeError) \<and>
   unsavedChanges (fetchTranslations initial) = [] \<and>
   renameKey (fetchTranslations initial) ''dashboard.nokey'' ''heading'' =
     Inr ((fetchTranslations initial)\<lparr>unsavedChanges :=
            [\<lparr>keyPath = ''dashboard.nokey'', language = ''__key_rename__'',
              originalValue = Str ''nokey'', newValue = ''heading''\<rparr>]\<rparr>) \<and>
   after [Refetch, RenameKey ''dashboard'' ''home''] (\<lambda>s. nodeAt s ''home.nokey'') =
     Some (Inr None) \<and>
   after [Refetch, RenameKey ''dashboard'' ''home'']
     (\<lambda>s. updateTranslation s ''home.nokey'' ''en'' ''x'') = Some (Inl (Throw TypeError)) \<and>
   updateTranslation (fetchTranslations initial) ''dashboard.nokey'' ''en'' ''x'' =
     Inr ((fetchTranslations initial)\<lparr>unsavedChanges :=
            [\<lparr>keyPath = ''dashboard.nokey'', language = ''en'',
              originalValue = Str [], newValue = ''x''\<rparr>]\<rparr>)"
  by code_simp

text \<open>
  Claim C1, amended.  Where an intermediate segment of the key path is missing in the
  tree (the walk over the leading segments throws, or ends at \<^verbatim>\<open>undefined\<close>), both calls
  throw a TypeError and leave the state as it was: tree, language list, snapshot and
  pending changes.  Where the leading segments lead to an object that has no property of
  the last segment's name, neither of its own nor inherited, \<^verbatim>\<open>renameKey\<close> returns and
  leaves the catalog (tree and language list) and the snapshot as they were, and appends
  its entry to the pending changes; so does \<^verbatim>\<open>updateTranslation\<close>, upserting or removing its
  entry, when it can read the original value in the snapshot.
\<close>

theorem missing_segment_keeps_catalog:
  "(data s = Some d \<and>
    (navigate (Some (Obj (translations' d))) (butlast (splitDot p)) = Inl (Throw e) \<or>
     navigate (Some (Obj (translations' d))) (butlast (splitDot p)) = Inr None)
    \<longrightarrow> renameKey s p n = Inl (Throw TypeError) \<and> apply_op s (RenameKey p n) = Some s \<and>
        (originalData s \<noteq> None \<longrightarrow> updateTranslation s p l v = Inl (Throw TypeError)) \<and>
        apply_op s (UpdateTranslation p l v) = Some s) \<and>
   (data s = Some d \<and>
    navigate (Some (Obj (translations' d))) (butlast (splitDot p)) = Inr (Some (Obj parent)) \<and>
    getProp (Some (Obj parent)) (last (splitDot p)) = Inr None
    \<longrightarrow> renameKey s p n =
          Inr (s\<lparr>unsavedChanges := unsavedChanges s @
                  [\<lparr>keyPath = p, language = key_rename,
                    originalValue = Str (last (splitDot p)), newValue = n\<rparr>]\<rparr>) \<and>
        (\<forall>od orig. originalData s = Some od \<and>
            readOriginal (translations' od) (splitDot p) l = Inr orig \<longrightarrow>
            updateTranslation s p l v =
              Inr (s\<lparr>unsavedChanges := trackChange p l orig v (unsavedChanges s)\<rparr>)))"
proof (intro conjI impI allI; elim conjE)
  assume d: "data s = Some d"
    and nav: "navigate (Some (Obj (translations' d))) (butlast (splitDot p)) = Inl (Throw e) \<or>
              navigate (Some (Obj (translations' d))) (butlast (splitDot p)) = Inr None"
  from nav navigate_throws[of "Some (Obj (translations' d))" "butlast (splitDot p)" e]
  have nav': "navigate (Some (Obj (translations' d))) (butlast (splitDot p)) = Inl (Throw TypeError) \<or>
              navigate (Some (Obj (translations' d))) (butlast (splitDot p)) = Inr None"
    by auto
  from d nav' show r: "renameKey s p n = Inl (Throw TypeError)"
    by (auto simp: renameKey_def Let_def)
  then show "apply_op s (RenameKey p n) = Some s" by simp
  have u: "originalData s \<noteq> None \<Longrightarrow> updateTranslation s p l v = Inl (Throw TypeError)"
    using d nav' by (auto simp: updateTranslation_def Let_def)
  then show "originalData s \<noteq> None \<Longrightarrow> updateTranslation s p l v = Inl (Throw TypeError)" .
  show "apply_op s (UpdateTranslation p l v) = Some s"
  proof (cases "originalData s")
    case None
    with d show ?thesis by (simp add: updateTranslation_def)
  next
    case (Some od)
    with u show ?thesis by simp
  qed
next
  assume d: "data s = Some d"
    and nav: "navigate (Some (Obj (translations' d))) (butlast (splitDot p)) = Inr (Some (Obj parent))"
    and miss: "getProp (Some (Obj parent)) (last (splitDot p)) = Inr None"
  from d nav renameIn_missing[OF miss] modifyAt_same[OF nav]
  show "renameKey s p n =
          Inr (s\<lparr>unsavedChanges := unsavedChanges s @
                  [\<lparr>keyPath = p, language = key_rename,
                    originalValue = Str (last (splitDot p)), newValue = n\<rparr>]\<rparr>)"
    by (simp add: renameKey_def Let_def)
  fix od orig
  assume od: "originalData s = Some od"
    and orig: "readOriginal (translations' od) (splitDot p) l = Inr orig"
  from d od nav miss orig
  show "updateTranslation s p l v =
          Inr (s\<lparr>unsavedChanges := trackChange p l orig v (unsavedChanges s)\<rparr>)"
    by (simp add: updateTranslation_def Let_def writeValue_def)
qed

theorem missing_segment_keeps_catalog_witness:
  "renameKey (fetchTranslations initial) ''missing.title'' ''heading'' = Inl (Throw TypeError) \<and>
   apply_op (fetchTranslations initial) (RenameKey ''missing.title'' ''heading'') =
     Some (fetchTranslations initial) \<and>
   updateTranslation (fetchTranslations initial) ''missing.title'' ''en'' ''x'' =
     Inl (Throw TypeError) \<and>
   apply_op (fetchTranslations initial) (UpdateTranslation ''missing.title'' ''en'' ''x'') =
     Some (fetchTranslations initial) \<and>
   renameKey (fetchTranslations initial) ''dashboard.nokey'' ''heading'' =
     Inr ((fetchTranslations initial)\<lparr>unsavedChanges :=
            unsavedChanges (fetchTranslations initial) @
            [\<lparr>keyPath = ''dashboard.nokey'', language = key_rename,
              originalValue = Str (last (splitDot ''dashboard.nokey'')), newValue = ''heading''\<rparr>]\<rparr>) \<and>
   updateTranslation (fetchTranslations initial) ''dashboard.nokey'' ''en'' ''x'' =
     Inr ((fetchTranslations initial)\<lparr>unsavedChanges :=
            trackChange ''dashboard.nokey'' ''en'' (Str []) ''x''
              (unsavedChanges (fetchTranslations initial))\<rparr>)"
proof -
  let ?s = "fetchTranslations initial"
  let ?dash = "[(''welcome'', leafOf ''Hello User'' ''Hallo Benutzer''),
                (''stats'', Obj
                  [(''title'', leafOf ''Statistics'' ''Statistiken''),
                   (''description'', leafOf ''Your performance overview'' [])])]"
  have gone: "navigate (Some (Obj (translations' mockData))) (butlast (splitDot ''missing.title''))
              = Inr None"
    by code_simp
  have nav: "navigate (Some (Obj (translations' mockData))) (butlast (splitDot ''dashboard.nokey''))
             = Inr (Some (Obj ?dash))"
    by code_simp
  have miss: "getProp (Some (Obj ?dash)) (last (splitDot ''dashboard.nokey'')) = Inr None"
    by code_simp
  have orig: "readOriginal (translations' mockData) (splitDot ''dashboard.nokey'') ''en'' =
              Inr (Str [])"
    by code_simp
  have od: "originalData ?s \<noteq> None"
    by (simp add: fetched_state)
  from missing_segment_keeps_catalog[where s = ?s and d = mockData and p = "''missing.title''"
      and e = TypeError and n = "''heading''" and l = "''en''" and v = "''x''"]
    gone fetched_state(1) od
  have a: "renameKey ?s ''missing.title'' ''heading'' = Inl (Throw TypeError) \<and>
           apply_op ?s (RenameKey ''missing.title'' ''heading'') = Some ?s \<and>
           updateTranslation ?s ''missing.title'' ''en'' ''x'' = Inl (Throw TypeError) \<and>
           apply_op ?s (UpdateTranslation ''missing.title'' ''en'' ''x'') = Some ?s"
    by blast
  from missing_segment_keeps_catalog[where s = ?s and d = mockData and p = "''dashboard.nokey''"
      and parent = ?dash and n = "''heading''" and l = "''en''" and v = "''x''"]
    nav miss orig fetched_state(1,2)
  have b: "renameKey ?s ''dashboard.nokey'' ''heading'' =
             Inr (?s\<lparr>unsavedChanges := unsavedChanges ?s @
                  [\<lparr>keyPath = ''dashboard.nokey'', language = key_rename,
                    originalValue = Str (last (splitDot ''dashboard.nokey'')),
                    newValue = ''heading''\<rparr>]\<rparr>) \<and>
           updateTranslation ?s ''dashboard.nokey'' ''en'' ''x'' =
             Inr (?s\<lparr>unsavedChanges := trackChange ''dashboard.nokey'' ''en'' (Str []) ''x''
                  (unsavedChanges ?s)\<rparr>)"
    by blast
  from a b show ?thesis by blast
qed

section \<open>renameKey\<close>

lemma navigate_to_entry:
  assumes "navigate (Some (Obj t)) (q @ [k]) = Inr (Some v)"
  obtains p where "navigate (Some (Obj t)) q = Inr (Some (Obj p))" and "map_of p k = Some v"
proof -
  from assms obtain c where c: "navigate (Some (Obj t)) q = Inr c" and g: "getProp c k = Inr (Some v)"
    by (auto simp: navigate_snoc split: sum.splits)
  from g obtain p where "c = Some (Obj p)" and "map_of p k = Some v"
    by (auto simp: getProp_Some)
  with c that show ?thesis by blast
qed

lemma delete_snoc:
  "delete (xs @ [(n, v)]) k = (if n = k then delete xs k else delete xs k @ [(n, v)])"
  by (simp add: delete_def)

lemma renameKey_entry:
  assumes "data s = Some d"
    and "navigate (Some (Obj (translations' d))) (butlast (splitDot oldPath)) = Inr (Some (Obj p))"
    and "map_of p (last (splitDot oldPath)) = Some v"
    and "n \<noteq> ''__proto__''"
  shows "renameKey s oldPath n =
           Inr (s\<lparr>data := Some (d\<lparr>translations' :=
                     modifyAt (butlast (splitDot oldPath)) (renamed (last (splitDot oldPath)) n)
                       (translations' d)\<rparr>),
                  unsavedChanges := unsavedChanges s @
                    [\<lparr>keyPath = oldPath, language = key_rename,
                      originalValue = Str (last (splitDot oldPath)), newValue = n\<rparr>]\<rparr>)"
proof -
  have "modifyAt (butlast (splitDot oldPath)) (\<lambda>_. renamed (last (splitDot oldPath)) n p)
          (translations' d) =
        modifyAt (butlast (splitDot oldPath)) (renamed (last (splitDot oldPath)) n) (translations' d)"
    by (rule modifyAt_at[OF assms(2)]) simp
  with assms renameIn_own[OF assms(3,4)] show ?thesis
    by (simp add: renameKey_def Let_def)
qed

text \<open>
  Claim C2 says that \<^verbatim>\<open>renameKey(q.k, n)\<close> moves the node to \<^verbatim>\<open>q.n\<close> for every non-empty
  \<open>n\<close> and changes nothing else.  Saving the rename dialog with the name unchanged calls
  \<^verbatim>\<open>renameKey('dashboard.welcome', 'welcome')\<close>: the assignment is followed by the
  \<^verbatim>\<open>delete\<close> of the same property, and the node is gone.  Renaming \<^verbatim>\<open>auth.login.title\<close> to
  the name of its sibling \<^verbatim>\<open>subtitle\<close> replaces the sibling's values.  After a rename to
  \<^verbatim>\<open>a.b\<close> the key path \<^verbatim>\<open>dashboard.a.b\<close> does not lead to the node.  Under the new name
  \<^verbatim>\<open>__proto__\<close> the assignment calls the setter that every object inherits, which makes
  the node the prototype of its parent and creates no property.  And where the node
  was stored under the name of an inherited member, here \<^verbatim>\<open>constructor\<close>, the old path leads
  to that member once the node has been renamed.
\<close>

theorem rename_to_same_name_counterexample:
  "after [Refetch] (\<lambda>s. nodeAt s ''dashboard.welcome'') =
     Some (Inr (Some (leafOf ''Hello User'' ''Hallo Benutzer''))) \<and>
   after [Refetch, RenameKey ''dashboard.welcome'' ''welcome'']
     (\<lambda>s. nodeAt s ''dashboard.welcome'') = Some (Inr None) \<and>
   after [Refetch] (\<lambda>s. nodeAt s ''auth.login.subtitle'') =
     Some (Inr (Some (leafOf ''Welcome back'' (''Willkommen zur'' @ [CHR 0xFC] @ ''ck'')))) \<and>
   after [Refetch, RenameKey ''auth.login.title'' ''subtitle'']
     (\<lambda>s. nodeAt s ''auth.login.subtitle'') = Some (Inr (Some (leafOf ''Login'' ''Anmelden''))) \<and>
   after [Refetch, RenameKey ''dashboard.welcome'' ''a.b'']
     (\<lambda>s. nodeAt s ''dashboard.a.b'') = Some (Inl (Throw TypeError)) \<and>
   renameKey (fetchTranslations initial) ''dashboard.welcome'' ''__proto__'' = Inl BuiltIn \<and>
   after [Refetch, RenameKey ''dashboard.welcome'' ''constructor'']
     (\<lambda>s. nodeAt s ''dashboard.constructor'') =
     Some (Inr (Some (leafOf ''Hello User'' ''Hallo Benutzer''))) \<and>
   after [Refetch, RenameKey ''dashboard.welcome'' ''constructor'',
          RenameKey ''dashboard.constructor'' ''greeting'']
     (\<lambda>s. nodeAt s ''dashboard.constructor'') = Some (Inl BuiltIn)"
  by code_simp

text \<open>
  Claim C2, amended: when the key path \<^verbatim>\<open>q.k\<close> resolves to a node \<open>v\<close>, \<open>k\<close> is not the name
  of an inherited member, and the key path \<^verbatim>\<open>q.n\<close> resolves to nothing yet (so \<open>n\<close> is
  neither \<open>k\<close> nor a sibling of \<open>k\<close> nor the name of an inherited member, and contains no
  separator), \<^verbatim>\<open>renameKey(q.k, n)\<close> returns normally; afterwards \<^verbatim>\<open>q.n\<close> resolves to the
  same \<open>v\<close>, \<^verbatim>\<open>q.k\<close> resolves to nothing, the language list is unchanged, and every path
  that neither runs through \<^verbatim>\<open>q.k\<close> or \<^verbatim>\<open>q.n\<close> nor names an ancestor of the entry resolves
  as before.
\<close>

theorem rename_relabels_final_segment:
  assumes d: "data s = Some d"
    and old: "navigate (Some (Obj (translations' d))) (splitDot oldPath) = Inr (Some v)"
    and own: "\<not> inherited (last (splitDot oldPath))"
    and new: "splitDot newPath = butlast (splitDot oldPath) @ [n]"
    and fresh: "navigate (Some (Obj (translations' d))) (splitDot newPath) = Inr None"
  shows "\<exists>s' d'. renameKey s oldPath n = Inr s' \<and> data s' = Some d' \<and>
           languages d' = languages d \<and> originalData s' = originalData s \<and>
           navigate (Some (Obj (translations' d'))) (splitDot newPath) = Inr (Some v) \<and>
           navigate (Some (Obj (translations' d'))) (splitDot oldPath) = Inr None \<and>
           (\<forall>r. \<not> prefix r (butlast (splitDot oldPath)) \<and> \<not> prefix (splitDot oldPath) r \<and>
                \<not> prefix (splitDot newPath) r \<longrightarrow>
                navigate (Some (Obj (translations' d'))) r = navigate (Some (Obj (translations' d))) r)"
proof -
  define q where "q = butlast (splitDot oldPath)"
  define k where "k = last (splitDot oldPath)"
  have keys: "splitDot oldPath = q @ [k]"
    by (simp add: q_def k_def splitDot_nonempty)
  from old keys obtain p where
    p: "navigate (Some (Obj (translations' d))) q = Inr (Some (Obj p))" and pk: "map_of p k = Some v"
    by (auto elim: navigate_to_entry)
  from fresh new p have "getProp (Some (Obj p)) n = Inr None"
    by (simp add: q_def[symmetric] navigate_snoc)
  then have pn: "map_of p n = None" and ninh: "\<not> inherited n"
    using getProp_Obj_None[of p n] by blast+
  from pn pk have nk: "n \<noteq> k" by auto
  from ninh proto_inherited have np: "n \<noteq> ''__proto__''"
    by auto
  define t' where "t' = modifyAt q (renamed k n) (translations' d)"
  define d' where "d' = d\<lparr>translations' := t'\<rparr>"
  have res: "renameKey s oldPath n = Inr (s\<lparr>data := Some d',
      unsavedChanges := unsavedChanges s @
        [\<lparr>keyPath = oldPath, language = key_rename, originalValue = Str k, newValue = n\<rparr>]\<rparr>)"
    using renameKey_entry[OF d p[unfolded q_def] pk[unfolded k_def] np]
    by (simp add: q_def[symmetric] k_def[symmetric] d'_def t'_def)
  have par: "navigate (Some (Obj t')) q = Inr (Some (Obj (renamed k n p)))"
    unfolding t'_def by (rule navigate_parent_modifyAt[OF p])
  have ren: "renamed k n p = delete (setOwn p n v) k"
    using pk by (simp add: renamed_def)
  have n1: "navigate (Some (Obj t')) (splitDot newPath) = Inr (Some v)"
    using par nk by (simp add: new q_def[symmetric] navigate_snoc ren map_of_delete map_of_setOwn)
  have n2: "navigate (Some (Obj t')) (splitDot oldPath) = Inr None"
    using par own by (simp add: keys navigate_snoc ren map_of_delete k_def[symmetric])
  have n3: "navigate (Some (Obj t')) r = navigate (Some (Obj (translations' d))) r"
    if "\<not> prefix r q" "\<not> prefix (q @ [k]) r" "\<not> prefix (q @ [n]) r" for r
    unfolding t'_def
  proof (rule navigate_modifyAt_other[OF that(1)])
    fix p' j rest
    assume "r = q @ j # rest"
    with that(2,3) have "j \<noteq> k" "j \<noteq> n" by auto
    then show "map_of (renamed k n p') j = map_of p' j"
      by (rule map_of_renamed_other)
  qed
  show ?thesis
    using res n1 n2 n3
    by (intro exI[of _ "s\<lparr>data := Some d', unsavedChanges := unsavedChanges s @
        [\<lparr>keyPath = oldPath, language = key_rename, originalValue = Str k, newValue = n\<rparr>]\<rparr>"]
        exI[of _ d'])
       (simp add: d'_def keys new q_def[symmetric])
qed

theorem rename_relabels_final_segment_witness:
  "\<exists>s' d'. renameKey (fetchTranslations initial) ''auth.login.title'' ''heading'' = Inr s' \<and>
      data s' = Some d' \<and> languages d' = languages mockData \<and>
      originalData s' = originalData (fetchTranslations initial) \<and>
      navigate (Some (Obj (translations' d'))) (splitDot ''auth.login.heading'') =
        Inr (Some (leafOf ''Login'' ''Anmelden'')) \<and>
      navigate (Some (Obj (translations' d'))) (splitDot ''auth.login.title'') = Inr None \<and>
      (\<forall>r. \<not> prefix r (butlast (splitDot ''auth.login.title'')) \<and>
           \<not> prefix (splitDot ''auth.login.title'') r \<and>
           \<not> prefix (splitDot ''auth.login.heading'') r \<longrightarrow>
           navigate (Some (Obj (translations' d'))) r =
           navigate (Some (Obj (translations' mockData))) r)"
proof -
  have old: "navigate (Some (Obj (translations' mockData))) (splitDot ''auth.login.title'') =
             Inr (Some (leafOf ''Login'' ''Anmelden''))"
    by code_simp
  have own: "\<not> inherited (last (splitDot ''auth.login.title''))"
    by code_simp
  have new: "splitDot ''auth.login.heading'' = butlast (splitDot ''auth.login.title'') @ [''heading'']"
    by code_simp
  have fresh: "navigate (Some (Obj (translations' mockData))) (splitDot ''auth.login.heading'') =
               Inr None"
    by code_simp
  show ?thesis
    by (rule rename_relabels_final_segment[OF fetched_state(1) old own new fresh])
qed

text \<open>
  Claim C10 says that for every new name \<open>n\<close> other than \<open>k\<close> the renamed entry becomes the
  last property of its parent and the siblings keep their order.  Renaming
  \<^verbatim>\<open>auth.login.title\<close> to the name of its sibling \<^verbatim>\<open>subtitle\<close> overwrites that sibling in
  place: the renamed entry is the first of three, and the sibling's values are lost.
  Renaming \<^verbatim>\<open>dashboard.welcome\<close> to the array-index name \<^verbatim>\<open>404\<close> leaves the entry in front
  of \<^verbatim>\<open>stats\<close>.  Renaming it to \<^verbatim>\<open>__proto__\<close> calls the setter that every object inherits:
  the entry becomes the prototype of the parent and is no property of it, last or other.
\<close>

theorem rename_onto_sibling_counterexample:
  "after [Refetch] (\<lambda>s. nodeAt s ''auth.login'') =
     Some (Inr (Some (Obj
       [(''title'', leafOf ''Login'' ''Anmelden''),
        (''subtitle'', leafOf ''Welcome back'' (''Willkommen zur'' @ [CHR 0xFC] @ ''ck'')),
        (''button'', leafOf ''Sign In'' ''Einloggen''),
        (''forgot_password'', leafOf ''Forgot password?'' [])]))) \<and>
   after [Refetch, RenameKey ''auth.login.title'' ''subtitle''] (\<lambda>s. nodeAt s ''auth.login'') =
     Some (Inr (Some (Obj
       [(''subtitle'', leafOf ''Login'' ''Anmelden''),
        (''button'', leafOf ''Sign In'' ''Einloggen''),
        (''forgot_password'', leafOf ''Forgot password?'' [])]))) \<and>
   after [Refetch, RenameKey ''dashboard.welcome'' ''404''] (\<lambda>s. nodeAt s ''dashboard'') =
     Some (Inr (Some (Obj
       [(''404'', leafOf ''Hello User'' ''Hallo Benutzer''),
        (''stats'', Obj
           [(''title'', leafOf ''Statistics'' ''Statistiken''),
            (''description'', leafOf ''Your performance overview'' [])])]))) \<and>
   after [Refetch, RenameKey ''dashboard.welcome'' ''__proto__''] (\<lambda>s. nodeAt s ''dashboard'') =
     None"
  by code_simp

text \<open>
  Claim C10, amended: when the parent object has the entry \<open>k\<close> and has no property named
  \<open>n\<close>, and \<open>n\<close> is neither an array-index name nor \<^verbatim>\<open>__proto__\<close>, \<^verbatim>\<open>renameKey(q.k, n)\<close>
  leaves the parent with its other entries in their old order, followed by the renamed
  entry.
\<close>

theorem rename_moves_entry_last:
  assumes d: "data s = Some d"
    and p: "navigate (Some (Obj (translations' d))) (butlast (splitDot oldPath)) = Inr (Some (Obj parent))"
    and pk: "map_of parent (last (splitDot oldPath)) = Some v"
    and fresh: "n \<notin> set (map fst parent)"
    and nidx: "\<not> is_index n"
    and nproto: "n \<noteq> ''__proto__''"
  shows "\<exists>s' d'. renameKey s oldPath n = Inr s' \<and> data s' = Some d' \<and>
           navigate (Some (Obj (translations' d'))) (butlast (splitDot oldPath)) =
             Inr (Some (Obj (delete parent (last (splitDot oldPath)) @ [(n, v)])))"
proof -
  from pk have "last (splitDot oldPath) \<in> set (map fst parent)"
    by (metis map_of_eq_None_iff option.distinct(1) set_map)
  with fresh have nk: "n \<noteq> last (splitDot oldPath)" by auto
  have "renamed (last (splitDot oldPath)) n parent = delete parent (last (splitDot oldPath)) @ [(n, v)]"
    using pk fresh nidx nk by (simp add: renamed_def setOwn_def delete_snoc)
  with navigate_parent_modifyAt[OF p, of "renamed (last (splitDot oldPath)) n"]
    renameKey_entry[OF d p pk nproto]
  show ?thesis by simp
qed

theorem rename_moves_entry_last_witness:
  "\<exists>s' d'. renameKey (fetchTranslations initial) ''dashboard.welcome'' ''greeting'' = Inr s' \<and>
      data s' = Some d' \<and>
      navigate (Some (Obj (translations' d'))) (butlast (splitDot ''dashboard.welcome'')) =
        Inr (Some (Obj (delete
          [(''welcome'', leafOf ''Hello User'' ''Hallo Benutzer''),
           (''stats'', Obj
              [(''title'', leafOf ''Statistics'' ''Statistiken''),
               (''description'', leafOf ''Your performance overview'' [])])]
          (last (splitDot ''dashboard.welcome''))
          @ [(''greeting'', leafOf ''Hello User'' ''Hallo Benutzer'')])))"
proof -
  let ?dash = "[(''welcome'', leafOf ''Hello User'' ''Hallo Benutzer''),
                (''stats'', Obj
                  [(''title'', leafOf ''Statistics'' ''Statistiken''),
                   (''description'', leafOf ''Your performance overview'' [])])]"
  have p: "navigate (Some (Obj (translations' mockData))) (butlast (splitDot ''dashboard.welcome''))
           = Inr (Some (Obj ?dash))"
    by code_simp
  have pk: "map_of ?dash (last (splitDot ''dashboard.welcome'')) =
            Some (leafOf ''Hello User'' ''Hallo Benutzer'')"
    by code_simp
  have fresh: "''greeting'' \<notin> set (map fst ?dash)"
    by code_simp
  have nidx: "\<not> is_index ''greeting''"
    by code_simp
  have nproto: "''greeting'' \<noteq> ''__proto__''"
    by simp
  show ?thesis
    by (rule rename_moves_entry_last[OF fetched_state(1) p pk fresh nidx nproto])
qed

section \<open>The pending-changes list\<close>
































section \<open>The traversals that rebuild the tree\<close>

text \<open>
  On the enumeration of a JavaScript object, defining the entries in their order in an
  empty result appends them one by one, so \<open>added\<close>, \<open>removed\<close> and \<open>extracted\<close> satisfy the
  equations of a map over the entries that drops the entries that are not objects.
\<close>

lemma valid_keys_drop_middle: "valid_keys (xs @ k # ys) \<Longrightarrow> valid_keys (xs @ ys)"
  by (auto simp: valid_keys_def sorted_wrt_append)

lemma valid_keys_suffix: "valid_keys (xs @ ys) \<Longrightarrow> valid_keys ys"
  by (auto simp: valid_keys_def sorted_wrt_append)

lemma valid_keys_Cons: "valid_keys (k # ks) \<Longrightarrow> valid_keys ks"
  by (auto simp: valid_keys_def)

lemma ins_index_last:
  "\<forall>k'\<in>set (map fst kvs). is_index k' \<and> index_val k' < index_val k \<Longrightarrow>
   ins_index k v kvs = kvs @ [(k, v)]"
  by (induction kvs) auto

lemma setOwn_last:
  assumes "valid_keys (map fst kvs @ [k])"
  shows "setOwn kvs k v = kvs @ [(k, v)]"
proof -
  from assms have fresh: "k \<notin> set (map fst kvs)"
    by (auto simp: valid_keys_def)
  from assms have "\<forall>k'\<in>set (map fst kvs). js_before k' k"
    by (auto simp: valid_keys_def sorted_wrt_append)
  then have "is_index k \<Longrightarrow> \<forall>k'\<in>set (map fst kvs). is_index k' \<and> index_val k' < index_val k"
    by (auto simp: js_before_def)
  with fresh show ?thesis
    by (auto simp: setOwn_def ins_index_last simp del: set_map)
qed

lemma valid_keys_snoc_of_middle: "valid_keys (xs @ k # ys) \<Longrightarrow> valid_keys (xs @ [k])"
  by (auto simp: valid_keys_def sorted_wrt_append)

declare added.simps [simp del]
declare removed.simps [simp del]
declare extracted.simps [simp del]

lemma addedEntries_shift:
  "valid_keys (map fst result @ map fst node) \<Longrightarrow>
   addedEntries langs c node result = result @ addedEntries langs c node []"
proof (induction node arbitrary: result)
  case Nil
  then show ?case by simp
next
  case (Cons e rest)
  obtain k v where e: "e = (k, v)" by (cases e)
  from Cons.prems e have vk: "valid_keys (map fst result @ k # map fst rest)" by simp
  show ?case
  proof (cases v)
    case (Str s)
    from Cons.IH[OF valid_keys_drop_middle[OF vk]]
      Cons.IH[of "[]"] valid_keys_suffix[OF vk, THEN valid_keys_Cons]
    show ?thesis using e Str by simp
  next
    case (Obj ob)
    define x where "x = (if isLeafNode langs ob then Obj (setOwn ob c (Str []))
                         else Obj (added langs c ob))"
    have p1: "setOwn result k x = result @ [(k, x)]"
      by (rule setOwn_last[OF valid_keys_snoc_of_middle[OF vk]])
    have p2: "setOwn [] k x = [(k, x)]"
      by (simp add: setOwn_def)
    have "valid_keys (map fst (result @ [(k, x)]) @ map fst rest)"
      using vk by simp
    from Cons.IH[OF this] have a: "addedEntries langs c rest (result @ [(k, x)]) =
        result @ (k, x) # addedEntries langs c rest []" by simp
    have "valid_keys (map fst [(k, x)] @ map fst rest)"
      using valid_keys_suffix[OF vk] by simp
    from Cons.IH[OF this] have b: "addedEntries langs c rest [(k, x)] =
        (k, x) # addedEntries langs c rest []" by simp
    show ?thesis
      using e Obj a b p1 p2 by (auto simp: x_def)
  qed
qed

lemma removedEntries_shift:
  "valid_keys (map fst result @ map fst node) \<Longrightarrow>
   removedEntries langs c node result = result @ removedEntries langs c node []"
proof (induction node arbitrary: result)
  case Nil
  then show ?case by simp
next
  case (Cons e rest)
  obtain k v where e: "e = (k, v)" by (cases e)
  from Cons.prems e have vk: "valid_keys (map fst result @ k # map fst rest)" by simp
  show ?case
  proof (cases v)
    case (Str s)
    from Cons.IH[OF valid_keys_drop_middle[OF vk]]
      Cons.IH[of "[]"] valid_keys_suffix[OF vk, THEN valid_keys_Cons]
    show ?thesis using e Str by simp
  next
    case (Obj ob)
    define x where "x = (if isLeafNode langs ob then Obj (delete ob c)
                         else Obj (removed langs c ob))"
    have p1: "setOwn result k x = result @ [(k, x)]"
      by (rule setOwn_last[OF valid_keys_snoc_of_middle[OF vk]])
    have p2: "setOwn [] k x = [(k, x)]"
      by (simp add: setOwn_def)
    have "valid_keys (map fst (result @ [(k, x)]) @ map fst rest)"
      using vk by simp
    from Cons.IH[OF this] have a: "removedEntries langs c rest (result @ [(k, x)]) =
        result @ (k, x) # removedEntries langs c rest []" by simp
    have "valid_keys (map fst [(k, x)] @ map fst rest)"
      using valid_keys_suffix[OF vk] by simp
    from Cons.IH[OF this] have b: "removedEntries langs c rest [(k, x)] =
        (k, x) # removedEntries langs c rest []" by simp
    show ?thesis
      using e Obj a b p1 p2 by (auto simp: x_def)
  qed
qed

lemma extractedEntries_shift:
  "valid_keys (map fst result @ map fst node) \<Longrightarrow>
   extractedEntries langs c node result = result @ extractedEntries langs c node []"
proof (induction node arbitrary: result)
  case Nil
  then show ?case by simp
next
  case (Cons e rest)
  obtain k v where e: "e = (k, v)" by (cases e)
  from Cons.prems e have vk: "valid_keys (map fst result @ k # map fst rest)" by simp
  show ?case
  proof (cases v)
    case (Str s)
    from Cons.IH[OF valid_keys_drop_middle[OF vk]]
      Cons.IH[of "[]"] valid_keys_suffix[OF vk, THEN valid_keys_Cons]
    show ?thesis using e Str by simp
  next
    case (Obj ob)
    define x where "x = (if isLeafNode langs ob then orEmpty (map_of ob c)
                         else Obj (extracted langs c ob))"
    have p1: "setOwn result k x = result @ [(k, x)]"
      by (rule setOwn_last[OF valid_keys_snoc_of_middle[OF vk]])
    have p2: "setOwn [] k x = [(k, x)]"
      by (simp add: setOwn_def)
    have "valid_keys (map fst (result @ [(k, x)]) @ map fst rest)"
      using vk by simp
    from Cons.IH[OF this] have a: "extractedEntries langs c rest (result @ [(k, x)]) =
        result @ (k, x) # extractedEntries langs c rest []" by simp
    have "valid_keys (map fst [(k, x)] @ map fst rest)"
      using valid_keys_suffix[OF vk] by simp
    from Cons.IH[OF this] have b: "extractedEntries langs c rest [(k, x)] =
        (k, x) # extractedEntries langs c rest []" by simp
    show ?thesis
      using e Obj a b p1 p2 by (auto simp: x_def)
  qed
qed


lemma added_Nil: "added langs c [] = []"
  by (simp add: added.simps)

lemma added_Str:
  "added langs c ((k, Str s) # rest) = added langs c rest"
  by (simp add: added.simps)

lemma added_Obj:
  assumes "valid_keys (k # map fst rest)"
  shows "added langs c ((k, Obj ob) # rest) =
    (k, if isLeafNode langs ob then Obj (setOwn ob c (Str [])) else Obj (added langs c ob))
      # added langs c rest"
proof -
  have "valid_keys (map fst [(k, x)] @ map fst rest)" for x :: jv
    using assms by simp
  from addedEntries_shift[OF this] show ?thesis
    by (simp add: added.simps setOwn_def)
qed

lemma removed_Nil: "removed langs c [] = []"
  by (simp add: removed.simps)


lemma removed_Obj:
  assumes "valid_keys (k # map fst rest)"
  shows "removed langs c ((k, Obj ob) # rest) =
    (k, if isLeafNode langs ob then Obj (delete ob c) else Obj (removed langs c ob))
      # removed langs c rest"
proof -
  have "valid_keys (map fst [(k, x)] @ map fst rest)" for x :: jv
    using assms by simp
  from removedEntries_shift[OF this] show ?thesis
    by (simp add: removed.simps setOwn_def)
qed

lemma extracted_Nil: "extracted langs l [] = []"
  by (simp add: extracted.simps)

lemma extracted_Str:
  "extracted langs l ((k, Str s) # rest) = extracted langs l rest"
  by (simp add: extracted.simps)

lemma extracted_Obj:
  assumes "valid_keys (k # map fst rest)"
  shows "extracted langs l ((k, Obj ob) # rest) =
    (k, if isLeafNode langs ob then orEmpty (map_of ob l) else Obj (extracted langs l ob))
      # extracted langs l rest"
proof -
  have "valid_keys (map fst [(k, x)] @ map fst rest)" for x :: jv
    using assms by simp
  from extractedEntries_shift[OF this] show ?thesis
    by (simp add: extracted.simps setOwn_def)
qed

lemma isLeafNode_iff: "isLeafNode langs ob \<longleftrightarrow> (\<exists>k\<in>set (map fst ob). k \<in> set langs)"
  by (simp add: isLeafNode_def list_ex_iff)

lemma set_ins_index: "set (ins_index k v kvs) = insert (k, v) (set kvs)"
  by (induction k v kvs rule: ins_index.induct) (simp_all add: insert_commute)

lemma keys_ins_index: "set (map fst (ins_index k v kvs)) = insert k (set (map fst kvs))"
  by (simp add: set_ins_index)

lemma keys_setOwn: "set (map fst (setOwn kvs k v)) = insert k (set (map fst kvs))"
proof (cases "k \<in> set (map fst kvs)")
  case True
  have "map fst (map (\<lambda>(k', v'). if k' = k then (k', v) else (k', v')) kvs) = map fst kvs"
    by (induction kvs) auto
  with True have "map fst (setOwn kvs k v) = map fst kvs"
    by (simp only: setOwn_def if_True)
  with True show ?thesis by (simp only: insert_absorb)
next
  case False
  then show ?thesis by (auto simp: setOwn_def keys_ins_index simp del: set_map)
qed

lemma filter_absent: "c \<notin> fst ` set ob \<Longrightarrow> filter (\<lambda>(k', v'). k' \<noteq> c) ob = ob"
  by (induction ob) auto

lemma delete_absent: "c \<notin> set (map fst ob) \<Longrightarrow> delete ob c = ob"
  by (simp add: delete_def filter_absent)

lemma delete_ins_index: "c \<notin> set (map fst ob) \<Longrightarrow> delete (ins_index c x ob) c = ob"
  by (induction ob) (auto simp: delete_def filter_absent)

lemma delete_setOwn_fresh: "c \<notin> set (map fst ob) \<Longrightarrow> delete (setOwn ob c x) c = ob"
  using delete_absent[of c ob] delete_ins_index[of c ob x]
  by (auto simp: setOwn_def delete_snoc simp del: set_map)


text \<open>
  A traversal of the hook that returns has returned what \<open>added\<close>, \<open>removed\<close> or
  \<open>extracted\<close> compute; and it returns where no object is stored under the name
  \<^verbatim>\<open>__proto__\<close> (and, for the export, the language is not the name of an inherited member).
\<close>

lemma add_returns:
  "addLanguageToNode langs c node = Inr r \<longrightarrow> r = added langs c node"
  "addLanguageEntries langs c node result = Inr r \<longrightarrow> r = addedEntries langs c node result"
proof (induction langs c node and langs c node result arbitrary: r and r
    rule: addLanguageToNode_addLanguageEntries.induct)
  case (1 langs c node)
  then show ?case by (simp add: added.simps)
next
  case (2 langs c result)
  then show ?case by simp
next
  case (3 langs c key s rest result)
  then show ?case by simp
next
  case (4 langs c key v rest result)
  show ?case
  proof
    assume a: "addLanguageEntries langs c ((key, Obj v) # rest) result = Inr r"
    show "r = addedEntries langs c ((key, Obj v) # rest) result"
    proof (cases "isLeafNode langs v")
      case True
      with a obtain result' where as: "assign result key (Obj (setOwn v c (Str []))) = Inr result'"
        and rest: "addLanguageEntries langs c rest result' = Inr r"
        by (auto split: sum.splits)
      from "4.IH"(2)[of "setOwn v c (Str [])" result' r] True as rest
      have "r = addedEntries langs c rest result'" by simp
      with assign_Inr[OF as] True show ?thesis by simp
    next
      case False
      with a obtain x result' where x: "addLanguageToNode langs c v = Inr x"
        and as: "assign result key (Obj x) = Inr result'"
        and rest: "addLanguageEntries langs c rest result' = Inr r"
        by (auto split: sum.splits)
      from "4.IH"(1)[OF False, of x] x have xe: "x = added langs c v" by simp
      from "4.IH"(2)[of x result' r] False x as rest
      have "r = addedEntries langs c rest result'" by simp
      with assign_Inr[OF as] False xe show ?thesis by simp
    qed
  qed
qed

lemma remove_returns:
  "removeLanguageFromNode langs c node = Inr r \<longrightarrow> r = removed langs c node"
  "removeLanguageEntries langs c node result = Inr r \<longrightarrow> r = removedEntries langs c node result"
proof (induction langs c node and langs c node result arbitrary: r and r
    rule: removeLanguageFromNode_removeLanguageEntries.induct)
  case (1 langs c node)
  then show ?case by (simp add: removed.simps)
next
  case (2 langs c result)
  then show ?case by simp
next
  case (3 langs c key s rest result)
  then show ?case by simp
next
  case (4 langs c key v rest result)
  show ?case
  proof
    assume a: "removeLanguageEntries langs c ((key, Obj v) # rest) result = Inr r"
    show "r = removedEntries langs c ((key, Obj v) # rest) result"
    proof (cases "isLeafNode langs v")
      case True
      with a obtain result' where as: "assign result key (Obj (delete v c)) = Inr result'"
        and rest: "removeLanguageEntries langs c rest result' = Inr r"
        by (auto split: sum.splits)
      from "4.IH"(2)[of "delete v c" result' r] True as rest
      have "r = removedEntries langs c rest result'" by simp
      with assign_Inr[OF as] True show ?thesis by simp
    next
      case False
      with a obtain x result' where x: "removeLanguageFromNode langs c v = Inr x"
        and as: "assign result key (Obj x) = Inr result'"
        and rest: "removeLanguageEntries langs c rest result' = Inr r"
        by (auto split: sum.splits)
      from "4.IH"(1)[OF False, of x] x have xe: "x = removed langs c v" by simp
      from "4.IH"(2)[of x result' r] False x as rest
      have "r = removedEntries langs c rest result'" by simp
      with assign_Inr[OF as] False xe show ?thesis by simp
    qed
  qed
qed

lemma add_total:
  "no_proto_kids node \<longrightarrow> (\<exists>r. addLanguageToNode langs c node = Inr r)"
  "no_proto_kids node \<longrightarrow> (\<exists>r. addLanguageEntries langs c node result = Inr r)"
proof (induction langs c node and langs c node result
    rule: addLanguageToNode_addLanguageEntries.induct)
  case (1 langs c node)
  then show ?case by simp
next
  case (2 langs c result)
  then show ?case by simp
next
  case (3 langs c key s rest result)
  then show ?case by simp
next
  case (4 langs c key v rest result)
  show ?case
  proof
    assume np: "no_proto_kids ((key, Obj v) # rest)"
    then have k: "key \<noteq> ''__proto__''" and npv: "no_proto_kids v" and npr: "no_proto_kids rest"
      by simp_all
    obtain x where x: "(if isLeafNode langs v then Inr (setOwn v c (Str []))
                        else addLanguageToNode langs c v) = Inr x"
      using "4.IH"(1) npv by (cases "isLeafNode langs v") auto
    from "4.IH"(2)[OF x assign_other[OF k]] npr
    obtain r where "addLanguageEntries langs c rest (setOwn result key (Obj x)) = Inr r"
      by blast
    with x assign_other[OF k, of result "Obj x"]
    show "\<exists>r. addLanguageEntries langs c ((key, Obj v) # rest) result = Inr r"
      by simp
  qed
qed

lemma remove_total:
  "no_proto_kids node \<longrightarrow> (\<exists>r. removeLanguageFromNode langs c node = Inr r)"
  "no_proto_kids node \<longrightarrow> (\<exists>r. removeLanguageEntries langs c node result = Inr r)"
proof (induction langs c node and langs c node result
    rule: removeLanguageFromNode_removeLanguageEntries.induct)
  case (1 langs c node)
  then show ?case by simp
next
  case (2 langs c result)
  then show ?case by simp
next
  case (3 langs c key s rest result)
  then show ?case by simp
next
  case (4 langs c key v rest result)
  show ?case
  proof
    assume np: "no_proto_kids ((key, Obj v) # rest)"
    then have k: "key \<noteq> ''__proto__''" and npv: "no_proto_kids v" and npr: "no_proto_kids rest"
      by simp_all
    obtain x where x: "(if isLeafNode langs v then Inr (delete v c)
                        else removeLanguageFromNode langs c v) = Inr x"
      using "4.IH"(1) npv by (cases "isLeafNode langs v") auto
    from "4.IH"(2)[OF x assign_other[OF k]] npr
    obtain r where "removeLanguageEntries langs c rest (setOwn result key (Obj x)) = Inr r"
      by blast
    with x assign_other[OF k, of result "Obj x"]
    show "\<exists>r. removeLanguageEntries langs c ((key, Obj v) # rest) result = Inr r"
      by simp
  qed
qed

lemma add_follows: "no_proto_kids node \<Longrightarrow> addLanguageToNode langs c node = Inr (added langs c node)"
  using add_total(1)[of node langs c] add_returns(1)[of langs c node] by auto

lemma remove_follows:
  "no_proto_kids node \<Longrightarrow> removeLanguageFromNode langs c node = Inr (removed langs c node)"
  using remove_total(1)[of node langs c] remove_returns(1)[of langs c node] by auto

lemma getProp_leaf:
  "\<not> inherited l \<Longrightarrow> getProp (Some (Obj v)) l = Inr (map_of v l)"
  by (simp split: option.splits)

lemma extract_follows:
  "\<not> inherited l \<Longrightarrow> no_proto_kids node \<longrightarrow>
     extractLanguage langs l node = Inr (extracted langs l node)"
  "\<not> inherited l \<Longrightarrow> no_proto_kids node \<longrightarrow>
     extractEntries langs l node result = Inr (extractedEntries langs l node result)"
proof (induction langs l node and langs l node result
    rule: extractLanguage_extractEntries.induct)
  case (1 langs lang node)
  then show ?case by (simp add: extracted.simps)
next
  case (2 langs lang result)
  then show ?case by simp
next
  case (3 langs lang k s rest result)
  then show ?case by simp
next
  case (4 langs lang k v rest result)
  show ?case
  proof
    assume np: "no_proto_kids ((k, Obj v) # rest)"
    then have k: "k \<noteq> ''__proto__''" and npv: "no_proto_kids v" and npr: "no_proto_kids rest"
      by simp_all
    define x where "x = (if isLeafNode langs v then orEmpty (map_of v lang)
                         else Obj (extracted langs lang v))"
    have x: "(if isLeafNode langs v
              then (case getProp (Some (Obj v)) lang of Inl e \<Rightarrow> Inl e | Inr y \<Rightarrow> Inr (orEmpty y))
              else (case extractLanguage langs lang v of Inl e \<Rightarrow> Inl e | Inr r \<Rightarrow> Inr (Obj r)))
             = Inr x"
    proof (cases "isLeafNode langs v")
      case True
      with getProp_leaf[OF "4.prems", of v] show ?thesis by (simp add: x_def)
    next
      case False
      with "4.IH"(1)[OF False "4.prems"] npv show ?thesis by (simp add: x_def)
    qed
    from "4.IH"(2)[OF x assign_other[OF k] "4.prems"] npr
    have "extractEntries langs lang rest (setOwn result k x) =
          Inr (extractedEntries langs lang rest (setOwn result k x))"
      by blast
    with x assign_other[OF k, of result x]
    show "extractEntries langs lang ((k, Obj v) # rest) result =
          Inr (extractedEntries langs lang ((k, Obj v) # rest) result)"
      by (auto simp: x_def)
  qed
qed

section \<open>Adding, removing and exporting a language\<close>

lemma keys_of_add:
  "well_typed_kids langs kvs \<Longrightarrow> valid_keys (map fst kvs) \<Longrightarrow>
   map fst (added langs c kvs) = map fst kvs"
proof (induction kvs)
  case Nil
  then show ?case by (simp add: added_Nil)
next
  case (Cons e rest)
  obtain k v where e: "e = (k, v)" by (cases e)
  with Cons.prems obtain ob where v: "v = Obj ob" by (cases v) auto
  from Cons e v show ?case
    by (simp add: added_Obj valid_keys_Cons)
qed

lemma leaf_has_no_other_key:
  "leaf_keys_ok langs (Obj ob) \<Longrightarrow> isLeafNode langs ob \<Longrightarrow> c \<notin> set langs \<Longrightarrow>
   c \<notin> set (map fst ob)"
  by (auto simp: list_all_iff)

lemma add_then_remove:
  "(\<forall>ob. v = Obj ob \<longrightarrow> \<not> isLeafNode langs ob \<longrightarrow> valid_jv v \<longrightarrow> well_typed langs v \<longrightarrow>
        leaf_keys_ok langs v \<longrightarrow> segment_free c langs v \<longrightarrow>
        removed (langs @ [c]) c (added langs c ob) = ob)"
  "(valid_keys (map fst kvs) \<longrightarrow> valid_kids kvs \<longrightarrow> well_typed_kids langs kvs \<longrightarrow>
      leaf_keys_ok_kids langs kvs \<longrightarrow> segment_free_kids c langs kvs \<longrightarrow>
      removed (langs @ [c]) c (added langs c kvs) = kvs)"
  if c: "c \<notin> set langs"
proof (induction v and kvs rule: valid_jv_valid_kids.induct)
  case (1 s)
  then show ?case by simp
next
  case (2 kvs)
  then show ?case by simp
next
  case 3
  then show ?case by (simp add: added_Nil removed_Nil)
next
  case (4 k v rest)
  show ?case
  proof (intro impI)
    assume vk: "valid_keys (map fst ((k, v) # rest))"
      and vj: "valid_kids ((k, v) # rest)"
      and wt: "well_typed_kids langs ((k, v) # rest)"
      and lk: "leaf_keys_ok_kids langs ((k, v) # rest)"
      and sf: "segment_free_kids c langs ((k, v) # rest)"
    from wt obtain ob where v: "v = Obj ob" by (cases v) auto
    from vk have vk': "valid_keys (k # map fst rest)" by simp
    have rest: "removed (langs @ [c]) c (added langs c rest) = rest"
      using "4.IH"(2) vk vj wt lk sf by (simp add: valid_keys_Cons)
    have keys: "map fst (added langs c rest) = map fst rest"
      using wt vk by (simp add: keys_of_add valid_keys_Cons)
    let ?x = "if isLeafNode langs ob then Obj (setOwn ob c (Str [])) else Obj (added langs c ob)"
    have add: "added langs c ((k, v) # rest) = (k, ?x) # added langs c rest"
      unfolding v by (rule added_Obj[OF vk'])
    have undo: "(if isLeafNode langs ob
                 then (if isLeafNode (langs @ [c]) (setOwn ob c (Str []))
                       then Obj (delete (setOwn ob c (Str [])) c)
                       else Obj (removed (langs @ [c]) c (setOwn ob c (Str []))))
                 else (if isLeafNode (langs @ [c]) (added langs c ob)
                       then Obj (delete (added langs c ob) c)
                       else Obj (removed (langs @ [c]) c (added langs c ob))))
                = Obj ob"
    proof (cases "isLeafNode langs ob")
      case True
      from lk v have "leaf_keys_ok langs (Obj ob)" by simp
      from leaf_has_no_other_key[OF this True c] have "c \<notin> set (map fst ob)" .
      moreover have "isLeafNode (langs @ [c]) (setOwn ob c (Str []))"
        by (simp add: isLeafNode_iff keys_setOwn del: set_map)
      ultimately show ?thesis using True by (simp add: delete_setOwn_fresh)
    next
      case False
      from wt v False have wtk: "well_typed_kids langs ob" by simp
      from vj v have vob: "valid_keys (map fst ob)" by simp
      from sf v False have cfree: "c \<notin> set (map fst ob)" by simp
      have "map fst (added langs c ob) = map fst ob"
        by (rule keys_of_add[OF wtk vob])
      with False cfree have nl: "\<not> isLeafNode (langs @ [c]) (added langs c ob)"
        by (auto simp: isLeafNode_iff simp del: set_map)
      from "4.IH"(1) v False vj wt lk sf
      have "removed (langs @ [c]) c (added langs c ob) = ob"
        by simp
      with False nl show ?thesis by simp
    qed
    have "removed (langs @ [c]) c ((k, ?x) # added langs c rest)
          = (k, Obj ob) # rest"
    proof (cases "isLeafNode langs ob")
      case True
      with undo rest keys vk' show ?thesis
        by (simp add: removed_Obj)
    next
      case False
      with undo rest keys vk' show ?thesis
        by (simp add: removed_Obj)
    qed
    with add v show "removed (langs @ [c]) c (added langs c ((k, v) # rest))
          = (k, v) # rest" by simp
  qed
qed



lemma leaf_string_value:
  assumes "list_all (\<lambda>x. case x of Str s \<Rightarrow> True | Obj c \<Rightarrow> False) (map snd ob)"
  shows "orEmpty (map_of ob l) = (case map_of ob l of Some (Str x) \<Rightarrow> Str x | _ \<Rightarrow> Str [])"
proof (cases "map_of ob l")
  case None
  then show ?thesis by simp
next
  case (Some y)
  then have "(l, y) \<in> set ob"
    by (rule map_of_SomeD)
  with assms have "case y of Str s \<Rightarrow> True | Obj c \<Rightarrow> False"
    by (force simp: list_all_iff)
  then obtain x where "y = Str x"
    by (cases y) auto
  with Some show ?thesis by simp
qed

lemma extract_is_spec_export:
  "(\<forall>ob. v = Obj ob \<longrightarrow> \<not> isLeafNode langs ob \<longrightarrow> valid_jv v \<longrightarrow> well_typed langs v \<longrightarrow>
        extracted langs l ob = spec_export_kids langs l ob)"
  "(valid_keys (map fst kvs) \<longrightarrow> valid_kids kvs \<longrightarrow> well_typed_kids langs kvs \<longrightarrow>
      extracted langs l kvs = spec_export_kids langs l kvs)"
proof (induction v and kvs rule: valid_jv_valid_kids.induct)
  case (1 s)
  then show ?case by simp
next
  case (2 kvs)
  then show ?case by simp
next
  case 3
  then show ?case by (simp add: extracted_Nil)
next
  case (4 k v rest)
  show ?case
  proof (intro impI)
    assume vk: "valid_keys (map fst ((k, v) # rest))"
      and vj: "valid_kids ((k, v) # rest)"
      and wt: "well_typed_kids langs ((k, v) # rest)"
    from wt obtain ob where v: "v = Obj ob" by (cases v) auto
    from vk have vk': "valid_keys (k # map fst rest)" by simp
    have rest: "extracted langs l rest = spec_export_kids langs l rest"
      using "4.IH"(2) vk vj wt by (simp add: valid_keys_Cons)
    have "(if isLeafNode langs ob then orEmpty (map_of ob l)
           else Obj (extracted langs l ob)) = spec_export langs l (Obj ob)"
    proof (cases "isLeafNode langs ob")
      case True
      with wt v show ?thesis by (simp add: leaf_string_value)
    next
      case False
      with "4.IH"(1) v vj wt show ?thesis by simp
    qed
    with rest show "extracted langs l ((k, v) # rest) = spec_export_kids langs l ((k, v) # rest)"
      unfolding v by (simp add: extracted_Obj[OF vk'])
  qed
qed

lemma spec_export_keys: "map fst (spec_export_kids langs l kvs) = map fst kvs"
  by (induction kvs) auto



lemma values_setOwn: "e \<in> set (setOwn kvs k v) \<Longrightarrow> snd e = v \<or> e \<in> set kvs"
  by (auto simp: setOwn_def set_ins_index split: if_splits)

lemma no_proto_kids_iff:
  "no_proto_kids kvs \<longleftrightarrow>
     (\<forall>(k, v)\<in>set kvs. (case v of Obj c \<Rightarrow> k \<noteq> ''__proto__'' | Str s \<Rightarrow> True) \<and> no_proto v)"
  by (induction kvs) auto

lemma no_proto_setOwn_string: "no_proto_kids ob \<Longrightarrow> no_proto_kids (setOwn ob c (Str x))"
  unfolding no_proto_kids_iff using values_setOwn[of _ ob c "Str x"]
  by (metis (mono_tags, lifting) case_prodI2 case_prod_conv jv.simps(5) no_proto.simps(1)
      prod.collapse)

lemma no_proto_delete: "no_proto_kids ob \<Longrightarrow> no_proto_kids (delete ob c)"
  unfolding no_proto_kids_iff by (auto simp: delete_def)

lemma add_no_proto:
  "(\<forall>ob. v = Obj ob \<longrightarrow> valid_jv v \<longrightarrow> no_proto v \<longrightarrow>
      no_proto_kids (added langs c ob))"
  "(valid_keys (map fst kvs) \<longrightarrow> valid_kids kvs \<longrightarrow> no_proto_kids kvs \<longrightarrow>
      no_proto_kids (added langs c kvs))"
proof (induction v and kvs rule: valid_jv_valid_kids.induct)
  case (1 s)
  then show ?case by simp
next
  case (2 kvs)
  then show ?case by simp
next
  case 3
  then show ?case by (simp add: added_Nil)
next
  case (4 k v rest)
  show ?case
  proof (intro impI)
    assume vk: "valid_keys (map fst ((k, v) # rest))"
      and vj: "valid_kids ((k, v) # rest)"
      and np: "no_proto_kids ((k, v) # rest)"
    from vk have vk': "valid_keys (k # map fst rest)" by simp
    have rest: "no_proto_kids (added langs c rest)"
      using "4.IH"(2) vk vj np by (simp add: valid_keys_Cons)
    show "no_proto_kids (added langs c ((k, v) # rest))"
    proof (cases v)
      case (Str x)
      with rest show ?thesis by (simp add: added_Str)
    next
      case (Obj ob)
      from np Obj have k: "k \<noteq> ''__proto__''" and npo: "no_proto_kids ob" by simp_all
      from "4.IH"(1) Obj vj npo have "no_proto_kids (added langs c ob)" by simp
      with npo k rest show ?thesis
        unfolding Obj added_Obj[OF vk']
        by (simp add: no_proto_setOwn_string)
    qed
  qed
qed





lemma mock_wf: "wf_catalog mockData"
  by code_simp

lemma mock_no_proto: "no_proto_kids (translations' mockData)"
  by code_simp

text \<open>
  Claim C6 says that \<^verbatim>\<open>addLanguage(c)\<close> followed by \<^verbatim>\<open>removeLanguage(c)\<close> restores every
  translation tree.  After the namespace \<^verbatim>\<open>dashboard.stats\<close> of the mock catalog has been
  renamed to \<^verbatim>\<open>fr\<close>, the catalog is still a catalog of the data model and \<^verbatim>\<open>fr\<close> is not
  active; but once \<^verbatim>\<open>fr\<close> is active, \<^verbatim>\<open>removeLanguage\<close> classifies \<^verbatim>\<open>dashboard\<close> as a leaf,
  because it has a property named \<^verbatim>\<open>fr\<close>, and deletes that property: the renamed namespace
  is lost, and \<^verbatim>\<open>dashboard.welcome\<close> keeps its empty \<^verbatim>\<open>fr\<close> entry.  And where a leaf
  already holds a value under the inactive code \<^verbatim>\<open>fr\<close>, the round trip deletes it.  And
  where the tree holds a namespace under the name \<^verbatim>\<open>__proto__\<close>, as a catalog parsed from
  JSON can, \<^verbatim>\<open>addLanguageToNode\<close> assigns it to \<^verbatim>\<open>result['__proto__']\<close>: that assignment
  replaces the prototype of the new tree and creates no property.
\<close>

theorem language_named_namespace_counterexample:
  "after [Refetch, RenameKey ''dashboard.stats'' ''fr''] (\<lambda>s. map_option languages (data s)) =
     Some (Some [''en'', ''de'']) \<and>
   after [Refetch, RenameKey ''dashboard.stats'' ''fr''] (\<lambda>s. map_option wf_catalog (data s)) =
     Some (Some True) \<and>
   after [Refetch, RenameKey ''dashboard.stats'' ''fr''] (\<lambda>s. nodeAt s ''dashboard'') =
     Some (Inr (Some (Obj
       [(''welcome'', leafOf ''Hello User'' ''Hallo Benutzer''),
        (''fr'', Obj
           [(''title'', leafOf ''Statistics'' ''Statistiken''),
            (''description'', leafOf ''Your performance overview'' [])])]))) \<and>
   after [Refetch, RenameKey ''dashboard.stats'' ''fr'', AddLanguage ''fr'', RemoveLanguage ''fr'']
     (\<lambda>s. nodeAt s ''dashboard'') =
     Some (Inr (Some (Obj
       [(''welcome'', Obj [(''en'', Str ''Hello User''), (''de'', Str ''Hallo Benutzer''),
                          (''fr'', Str [])])]))) \<and>
   after [Refetch, UpdateTranslation ''dashboard.welcome'' ''fr'' ''Salut'']
     (\<lambda>s. map_option languages (data s)) = Some (Some [''en'', ''de'']) \<and>
   after [Refetch, UpdateTranslation ''dashboard.welcome'' ''fr'' ''Salut'']
     (\<lambda>s. nodeAt s ''dashboard.welcome'') =
     Some (Inr (Some (Obj [(''en'', Str ''Hello User''), (''de'', Str ''Hallo Benutzer''),
                           (''fr'', Str ''Salut'')]))) \<and>
   after [Refetch, UpdateTranslation ''dashboard.welcome'' ''fr'' ''Salut'',
          AddLanguage ''fr'', RemoveLanguage ''fr'']
     (\<lambda>s. nodeAt s ''dashboard.welcome'') =
     Some (Inr (Some (Obj [(''en'', Str ''Hello User''), (''de'', Str ''Hallo Benutzer'')]))) \<and>
   wf_catalog (mockData\<lparr>translations' :=
     [(''__proto__'', Obj [(''title'', leafOf ''Login'' ''Anmelden'')])]\<rparr>) \<and>
   addLanguage ((fetchTranslations initial)\<lparr>data := Some (mockData\<lparr>translations' :=
     [(''__proto__'', Obj [(''title'', leafOf ''Login'' ''Anmelden'')])]\<rparr>)\<rparr>) ''fr'' =
     Inl BuiltIn"
  by code_simp

text \<open>
  Claim C6, amended: for a catalog of the data model with at least one language, in
  which no object is stored under the name \<^verbatim>\<open>__proto__\<close>, and a code \<open>c\<close> that is not
  active and that no namespace below the root has as a child segment, \<^verbatim>\<open>addLanguage(c)\<close>
  followed by \<^verbatim>\<open>removeLanguage(c)\<close> yields the state it started from: the same language
  list and the same tree, with the same keys in the same order and the same values.
\<close>

theorem add_then_remove_language_restores_state:
  assumes d: "data s = Some d"
    and c: "c \<notin> set (languages d)"
    and one: "languages d \<noteq> []"
    and wf: "wf_catalog d"
    and np: "no_proto_kids (translations' d)"
    and sf: "segment_free_kids c (languages d) (translations' d)"
  shows "\<exists>s1. addLanguage s c = Inr s1 \<and> removeLanguage s1 c = Inr s"
proof -
  let ?t1 = "added (languages d) c (translations' d)"
  let ?s1 = "s\<lparr>data := Some (d\<lparr>languages := languages d @ [c], translations' := ?t1\<rparr>)\<rparr>"
  from wf have v: "valid_keys (map fst (translations' d))" "valid_kids (translations' d)"
    and w: "well_typed_kids (languages d) (translations' d)"
    "leaf_keys_ok_kids (languages d) (translations' d)"
    by (simp_all add: wf_catalog_def valid_obj_def catalog_inv_def)
  with add_then_remove(2)[OF c, of "translations' d"] sf
  have tree: "removed (languages d @ [c]) c ?t1 = translations' d"
    by simp
  from c have langs: "filter (\<lambda>l. l \<noteq> c) (languages d) = languages d"
    by (auto intro: filter_True)
  from one have many: "\<not> length (languages d) + 1 \<le> 1"
    by (cases "languages d") auto
  from d c add_follows[OF np, of "languages d" c] have add: "addLanguage s c = Inr ?s1"
    by (simp add: addLanguage_def)
  from add_no_proto(2)[of "translations' d" "languages d" c] v np
  have "no_proto_kids ?t1" by blast
  from remove_follows[OF this, of "languages d @ [c]" c] d tree langs many
  have "removeLanguage ?s1 c = Inr s"
    by (simp add: removeLanguage_def)
  with add show ?thesis by blast
qed

theorem add_then_remove_language_restores_state_witness:
  "\<exists>s1. addLanguage (fetchTranslations initial) ''fr'' = Inr s1 \<and>
         removeLanguage s1 ''fr'' = Inr (fetchTranslations initial)"
proof -
  have c: "''fr'' \<notin> set (languages mockData)" by code_simp
  have one: "languages mockData \<noteq> []" by code_simp
  have sf: "segment_free_kids ''fr'' (languages mockData) (translations' mockData)"
    by code_simp
  show ?thesis
    by (rule add_then_remove_language_restores_state[OF fetched_state(1) c one mock_wf
          mock_no_proto sf])
qed




text \<open>
  Claim C9 says that \<^verbatim>\<open>exportToJson(l)\<close> replaces every leaf by its string for every
  active language \<open>l\<close>.  The function tests its argument for truthiness, so for the empty
  string, once that is an active code, it returns the multi-language tree itself: the
  leaf \<^verbatim>\<open>dashboard.welcome\<close> of the result is still a map.  Where the active language is
  the name of an inherited member, here \<^verbatim>\<open>constructor\<close>, and a leaf has no entry for it,
  \<^verbatim>\<open>value[lang]\<close> is that member and not \<^verbatim>\<open>undefined\<close>, so the leaf is not exported as the
  empty string.  And a namespace stored under the name \<^verbatim>\<open>__proto__\<close> is assigned to
  \<^verbatim>\<open>result['__proto__']\<close>, which creates no property: the export has no such key.
\<close>

theorem export_empty_language_counterexample:
  "after [Refetch, AddLanguage []] (\<lambda>s. map_option languages (data s)) =
     Some (Some [''en'', ''de'', []]) \<and>
   after [Refetch, AddLanguage []] (\<lambda>s. exportToJson s (Some [])) =
     after [Refetch, AddLanguage []] (\<lambda>s. Inr (map_option translations' (data s))) \<and>
   after [Refetch, AddLanguage []] (\<lambda>s. nodeAt s ''dashboard.welcome'') =
     Some (Inr (Some (Obj [(''en'', Str ''Hello User''), (''de'', Str ''Hallo Benutzer''),
                           ([], Str [])]))) \<and>
   after [Refetch, AddLanguage ''constructor'', RenameKey ''dashboard.welcome.constructor'' ''note'']
     (\<lambda>s. map_option languages (data s)) = Some (Some [''en'', ''de'', ''constructor'']) \<and>
   after [Refetch, AddLanguage ''constructor'', RenameKey ''dashboard.welcome.constructor'' ''note'']
     (\<lambda>s. nodeAt s ''dashboard.welcome'') =
     Some (Inr (Some (Obj [(''en'', Str ''Hello User''), (''de'', Str ''Hallo Benutzer''),
                           (''note'', Str [])]))) \<and>
   after [Refetch, AddLanguage ''constructor'', RenameKey ''dashboard.welcome.constructor'' ''note'']
     (\<lambda>s. exportToJson s (Some ''constructor'')) = Some (Inl BuiltIn) \<and>
   exportToJson ((fetchTranslations initial)\<lparr>data := Some (mockData\<lparr>translations' :=
     [(''__proto__'', Obj [(''title'', leafOf ''Login'' ''Anmelden'')])]\<rparr>)\<rparr>) (Some ''en'') =
     Inl BuiltIn"
  by code_simp

text \<open>
  Claim C9, amended: for every translation tree of the data model in which no object is
  stored under the name \<^verbatim>\<open>__proto__\<close>, and every active language \<open>l\<close> that is not the empty
  string and not the name of an inherited member, \<^verbatim>\<open>exportToJson(l)\<close> returns the
  structure the specification describes: the same nesting and the same keys in the same
  order, every leaf replaced by its string for \<open>l\<close>, the empty string where the leaf has
  none.
\<close>

theorem export_language_matches_specification:
  assumes "data s = Some d"
    and "valid_obj (translations' d)"
    and "well_typed_kids (languages d) (translations' d)"
    and "no_proto_kids (translations' d)"
    and "l \<in> set (languages d)"
    and "l \<noteq> []"
    and "\<not> inherited l"
  shows "exportToJson s (Some l) = Inr (Some (spec_export_kids (languages d) l (translations' d)))"
proof -
  from extract_follows(1)[OF assms(7), of "translations' d" "languages d"] assms(4)
  have "extractLanguage (languages d) l (translations' d) =
        Inr (extracted (languages d) l (translations' d))" by blast
  with assms extract_is_spec_export(2)[of "translations' d" "languages d" l]
  show ?thesis
    by (simp add: exportToJson_def valid_obj_def)
qed

theorem export_language_matches_specification_witness:
  "exportToJson (fetchTranslations initial) (Some ''de'') =
   Inr (Some (spec_export_kids (languages mockData) ''de'' (translations' mockData)))"
proof -
  have v: "valid_obj (translations' mockData)" by code_simp
  have w: "well_typed_kids (languages mockData) (translations' mockData)" by code_simp
  have a: "''de'' \<in> set (languages mockData)" by code_simp
  have l: "''de'' \<noteq> []" by simp
  have i: "\<not> inherited ''de''" by code_simp
  show ?thesis
    by (rule export_language_matches_specification[OF fetched_state(1) v w mock_no_proto a l i])
qed

section \<open>buildTree and completeness\<close>

lemma filledCount_strings:
  assumes "list_all (\<lambda>x. case x of Str s \<Rightarrow> True | Obj c \<Rightarrow> False) (map snd vals)"
    and "list_all (\<lambda>l. \<not> inherited l) ls"
  shows "filledCount vals ls = Inr (length (filter (\<lambda>l. nonBlank (map_of vals l)) ls))"
  using assms(2)
proof (induction ls)
  case Nil
  then show ?case by simp
next
  case (Cons l ls)
  have "filled vals l = Inr (nonBlank (map_of vals l))"
  proof (cases "map_of vals l")
    case None
    with Cons.prems show ?thesis by (simp add: nonBlank_def filled_def)
  next
    case (Some y)
    then have "(l, y) \<in> set vals" by (rule map_of_SomeD)
    with assms(1) have "case y of Str s \<Rightarrow> True | Obj c \<Rightarrow> False"
      by (force simp: list_all_iff)
    then obtain x where "y = Str x" by (cases y) auto
    with Some show ?thesis by (simp add: nonBlank_def filled_def)
  qed
  with Cons show ?case by simp
qed

lemma avg_is_mean: "avgCompleteness cs = meanCompleteness cs"
  by (cases cs) (simp_all add: avgCompleteness_def meanCompleteness_def total_def foldl_map)

lemma buildTree_annotates:
  assumes langs: "list_all (\<lambda>l. \<not> inherited l) (languages d)"
  shows
  "(\<forall>k p dep. well_typed (languages d) v \<longrightarrow>
      (\<exists>n. buildNode d k v p dep = Inr n \<and> key n = k \<and> annotated (languages d) v n))"
  "(\<forall>p dep. well_typed_kids (languages d) kvs \<longrightarrow>
      (\<exists>ns. buildTree (Some d) kvs p dep = Inr ns \<and> annotated_kids (languages d) kvs ns))"
proof (induction v and kvs rule: valid_jv_valid_kids.induct)
  case (1 s)
  then show ?case by simp
next
  case (2 kvs)
  show ?case
  proof (intro allI impI)
    fix k p dep
    assume wt: "well_typed (languages d) (Obj kvs)"
    show "\<exists>n. buildNode d k (Obj kvs) p dep = Inr n \<and> key n = k \<and>
              annotated (languages d) (Obj kvs) n"
    proof (cases "isLeafNode (languages d) kvs")
      case True
      with wt have "list_all (\<lambda>x. case x of Str s \<Rightarrow> True | Obj c \<Rightarrow> False) (map snd kvs)"
        by simp
      from filledCount_strings[OF this langs] True show ?thesis
        by (simp add: Let_def leafCompleteness_def)
    next
      case False
      with wt have "well_typed_kids (languages d) kvs" by simp
      with 2 obtain cs where "buildTree (Some d) kvs (joinPath p k) (dep + 1) = Inr cs"
        and "annotated_kids (languages d) kvs cs" by blast
      with False show ?thesis
        by (simp add: Let_def avg_is_mean)
    qed
  qed
next
  case 3
  then show ?case by simp
next
  case (4 k v rest)
  show ?case
  proof (intro allI impI)
    fix p dep
    assume wt: "well_typed_kids (languages d) ((k, v) # rest)"
    then have wv: "well_typed (languages d) v" and wr: "well_typed_kids (languages d) rest"
      by simp_all
    from "4.IH"(1) wv obtain n where n: "buildNode d k v p dep = Inr n" "key n = k"
      "annotated (languages d) v n" by blast
    from "4.IH"(2) wr obtain ns where ns: "buildTree (Some d) rest p dep = Inr ns"
      "annotated_kids (languages d) rest ns" by blast
    from n ns show "\<exists>ns. buildTree (Some d) ((k, v) # rest) p dep = Inr ns \<and>
      annotated_kids (languages d) ((k, v) # rest) ns"
      by simp
  qed
qed

text \<open>
  The scenario of the specification: the leaf \<^verbatim>\<open>auth.login.forgot_password\<close> of the mock
  catalog is 50 per cent complete, and the three top-level namespaces average their
  children.  These numbers are exact.  With three languages they are not: a leaf with
  two of three values filled has the completeness 66.66666666666666, the double below
  \<open>200/3\<close>, and the mean of that and of 33.33333333333333 is 49.99999999999999.
\<close>

lemma mock_leaf_completeness:
  "map_sum id completeness
     (buildNode mockData ''forgot_password'' (leafOf ''Forgot password?'' []) ''auth.login'' 2) =
   Inr 50"
  by code_simp

lemma mock_completeness:
  "map_sum id (map completeness) (buildTree (Some mockData) (translations' mockData) [] 0) =
   Inr [375 / 4, 175 / 2, 175 / 2]"
  by code_simp

lemma three_languages_completeness:
  "map_sum id (\<lambda>ns. map completeness ns @ concat (map (map completeness o the o children) ns))
     (buildTree (Some \<lparr>project = [], languages = [''en'', ''de'', ''fr''], translations' = []\<rparr>)
        [(''ns'', Obj
           [(''a'', Obj [(''en'', Str ''x''), (''de'', Str ''y''), (''fr'', Str [])]),
            (''b'', Obj [(''en'', Str ''x''), (''de'', Str []), (''fr'', Str [])])])] [] 0) =
   Inr [7036874417766399 / 140737488355328,
        2345624805922133 / 35184372088832, 2345624805922133 / 70368744177664]"
  by code_simp

text \<open>
  Claim C7 says that \<^verbatim>\<open>buildTree\<close> annotates every translation tree.  Where an active
  language is the name of an inherited member, here \<^verbatim>\<open>constructor\<close>, and a leaf has no
  entry for it, \<^verbatim>\<open>values[lang]\<close> is that member, \<^verbatim>\<open>?.\<close> does not short-circuit and the call
  of \<^verbatim>\<open>trim\<close> throws a TypeError: \<^verbatim>\<open>buildTree\<close> returns no tree, where the claim gives the
  leaf one filled language of two, 50.  The hook reaches such a catalog: after
  \<^verbatim>\<open>addLanguage('constructor')\<close>, the rename of that entry of the leaf \<^verbatim>\<open>dashboard.welcome\<close>
  leaves the leaf without it.
\<close>

theorem buildTree_inherited_language_counterexample:
  "well_typed_kids [''en'', ''constructor''] [(''title'', Obj [(''en'', Str ''Login'')])] \<and>
   leafCompleteness [''en'', ''constructor''] [(''en'', Str ''Login'')] = 50 \<and>
   buildTree (Some \<lparr>project = [], languages = [''en'', ''constructor''], translations' = []\<rparr>)
     [(''title'', Obj [(''en'', Str ''Login'')])] [] 0 = Inl (Throw TypeError) \<and>
   after [Refetch, AddLanguage ''constructor'', RenameKey ''dashboard.welcome.constructor'' ''note'']
     (\<lambda>s. map_option (\<lambda>d. well_typed_kids (languages d) (translations' d)) (data s)) =
     Some (Some True) \<and>
   after [Refetch, AddLanguage ''constructor'', RenameKey ''dashboard.welcome.constructor'' ''note'']
     (\<lambda>s. buildTree (data s) (translations' (the (data s))) [] 0) =
     Some (Inl (Throw TypeError))"
  by code_simp

text \<open>
  Claim C7, amended: for every translation tree of the data model and every language
  list without the name of an inherited member, \<^verbatim>\<open>buildTree\<close> returns display nodes, one
  per entry and in the order of the entries, in which every leaf carries the number of
  active languages with a non-blank value, divided by the number of active languages,
  times 100, and every namespace carries the unweighted mean of the completeness of its
  direct children, or 100 when it has none; quotient, product, sum and mean are those of
  JavaScript numbers, the sum taken from the left.
\<close>

theorem buildTree_annotates_completeness:
  assumes "well_typed_kids (languages d) tree"
    and "list_all (\<lambda>l. \<not> inherited l) (languages d)"
  shows "\<exists>ns. buildTree (Some d) tree p dep = Inr ns \<and> annotated_kids (languages d) tree ns"
  using assms(1) buildTree_annotates(2)[OF assms(2), of tree] by blast

theorem buildTree_annotates_completeness_witness:
  "\<exists>ns. buildTree (Some mockData) (translations' mockData) [] 0 = Inr ns \<and>
        annotated_kids (languages mockData) (translations' mockData) ns"
proof -
  have w: "well_typed_kids (languages mockData) (translations' mockData)"
    by code_simp
  have l: "list_all (\<lambda>l. \<not> inherited l) (languages mockData)"
    by code_simp
  show ?thesis
    by (rule buildTree_annotates_completeness[OF w l])
qed

section \<open>The catalog invariant\<close>


lemma keys_upd_key: "map fst (upd_key k g kvs) = map fst kvs"
  by (induction kvs) auto

lemma keys_modifyAt_Cons: "map fst (modifyAt (k # ks) f node) = map fst node"
  by (simp add: keys_upd_key)






















end
